theory Spec2Isabelle
  imports Main "HOL-Library.Word"
begin

unbundle bit_operations_syntax

section \<open>Errors\<close>

text \<open>
  A Go \<open>error\<close> value is \<open>nil\<close> or an error; a function returning \<open>error\<close> returns
  \<open>error option\<close> here, \<open>None\<close> being \<open>nil\<close>. The errors the package can see are
  \<^item> a raw \<open>unix.Errno\<close>, returned by every wrapper of \<open>golang.org/x/sys/unix\<close>;
  \<^item> \<open>fmt.Errorf\<close> with a \<open>%w\<close> verb, which wraps one error (\<open>Unwrap\<close> gives it back);
  \<^item> \<open>fmt.Errorf\<close> without \<open>%w\<close>, which wraps nothing;
  \<^item> \<open>*os.PathError\<close>, built by the methods of \<open>os.File\<close>, which wraps one error;
  \<^item> \<open>io.ErrUnexpectedEOF\<close> and \<open>io.ErrShortWrite\<close>, sentinels of the standard library.
  The format string and its arguments are kept as they are written in the source.
\<close>

datatype fmt_arg = ArgS string | ArgU nat

datatype error =
    Errno nat
  | ErrorfW string "fmt_arg list" error
  | Errorf string "fmt_arg list"
  | PathError string string error
  | ErrUnexpectedEOF
  | ErrShortWrite

text \<open>Errno values of Linux (asm-generic), as \<open>golang.org/x/sys/unix\<close> defines them.\<close>

definition EPERM :: nat where "EPERM = 1"
definition ENOTDIR :: nat where "ENOTDIR = 20"
definition EINVAL :: nat where "EINVAL = 22"
definition ENOSYS :: nat where "ENOSYS = 38"
definition EOPNOTSUPP :: nat where "EOPNOTSUPP = 95"
definition EEXIST :: nat where "EEXIST = 17"
definition ENOENT :: nat where "ENOENT = 2"
definition EXDEV :: nat where "EXDEV = 18"
definition EBADF :: nat where "EBADF = 9"
definition ENOSPC :: nat where "ENOSPC = 28"

text \<open>
  \<open>errors.As(err, &errno)\<close> with \<open>errno\<close> of type \<open>unix.Errno\<close>: walk the chain of
  \<open>Unwrap\<close> from the outside and stop at the first error whose type is \<open>Errno\<close>.
\<close>

fun errors_As_Errno :: "error \<Rightarrow> nat option" where
  "errors_As_Errno (Errno e) = Some e"
| "errors_As_Errno (ErrorfW f as err) = errors_As_Errno err"
| "errors_As_Errno (Errorf f as) = None"
| "errors_As_Errno (PathError op p err) = errors_As_Errno err"
| "errors_As_Errno ErrUnexpectedEOF = None"
| "errors_As_Errno ErrShortWrite = None"

text \<open>
  \<open>errors.Is(err, target)\<close> for a target that is an \<open>Errno\<close>: some error of the chain
  equals the target. (\<open>Errno.Is\<close> answers only for the four \<open>oserror\<close> sentinels, never
  for an \<open>Errno\<close> target.)
\<close>

fun errors_Is_Errno :: "error \<Rightarrow> nat \<Rightarrow> bool" where
  "errors_Is_Errno (Errno e) t = (e = t)"
| "errors_Is_Errno (ErrorfW f as err) t = errors_Is_Errno err t"
| "errors_Is_Errno (Errorf f as) t = False"
| "errors_Is_Errno (PathError op p err) t = errors_Is_Errno err t"
| "errors_Is_Errno ErrUnexpectedEOF t = False"
| "errors_Is_Errno ErrShortWrite t = False"

text \<open>\<open>fallbackNeeded\<close> (secureio.go, lines 57-66); \<open>nil\<close> matches nothing.\<close>

definition fallbackNeeded :: "error option \<Rightarrow> bool" where
  "fallbackNeeded err =
     (case err of
        None \<Rightarrow> False
      | Some e \<Rightarrow>
          (case errors_As_Errno e of
             None \<Rightarrow> False
           | Some errno \<Rightarrow>
               (if errno = EOPNOTSUPP \<or> errno = EINVAL \<or> errno = ENOTDIR \<or> errno = EPERM
                then True else False)))"

section \<open>The kernel\<close>

text \<open>
  The package talks to the kernel through eleven system calls. The kernel is a parameter:
  a state of any type and one transition function for each call, which returns an errno
  (\<open>Inl\<close>, or \<open>Some\<close> where the call has no other result) or the result of the call.
  Descriptors the kernel hands out are natural numbers; \<open>AT_FDCWD\<close> is the only
  negative descriptor the code passes, and only to \<open>openat2\<close>.
  \<open>k_write\<close> answers with the number of bytes the kernel is ready to take; the count
  that \<open>write(2)\<close> reports is that number cut at the length of the buffer.
  A call interrupted by a signal is restarted inside the transition function.
\<close>

type_synonym byte = "8 word"

record stat_t =
  Uid :: "32 word"
  Mode :: "32 word"

record 's kernel =
  k_openat2 :: "int \<Rightarrow> string \<Rightarrow> 64 word \<Rightarrow> 64 word \<Rightarrow> 's \<Rightarrow> (nat + nat) \<times> 's"
  k_open :: "string \<Rightarrow> 64 word \<Rightarrow> 32 word \<Rightarrow> 's \<Rightarrow> (nat + nat) \<times> 's"
  k_fstat :: "nat \<Rightarrow> 's \<Rightarrow> (nat + stat_t) \<times> 's"
  k_close :: "nat \<Rightarrow> 's \<Rightarrow> nat option \<times> 's"
  k_openat :: "nat \<Rightarrow> string \<Rightarrow> 64 word \<Rightarrow> 32 word \<Rightarrow> 's \<Rightarrow> (nat + nat) \<times> 's"
  k_write :: "nat \<Rightarrow> byte list \<Rightarrow> 's \<Rightarrow> (nat + nat) \<times> 's"
  k_fsync :: "nat \<Rightarrow> 's \<Rightarrow> nat option \<times> 's"
  k_fchown :: "nat \<Rightarrow> int \<Rightarrow> int \<Rightarrow> 's \<Rightarrow> nat option \<times> 's"
  k_unlinkat :: "nat \<Rightarrow> string \<Rightarrow> 64 word \<Rightarrow> 's \<Rightarrow> nat option \<times> 's"
  k_linkat :: "nat \<Rightarrow> string \<Rightarrow> nat \<Rightarrow> string \<Rightarrow> 64 word \<Rightarrow> 's \<Rightarrow> nat option \<times> 's"
  k_renameat :: "nat \<Rightarrow> string \<Rightarrow> nat \<Rightarrow> string \<Rightarrow> 's \<Rightarrow> nat option \<times> 's"

text \<open>Every system call the code makes is logged, with its arguments and its result.\<close>

datatype event =
    SysOpenat2 string "64 word" "64 word" "nat + nat"
  | SysOpen string "64 word" "32 word" "nat + nat"
  | SysFstat nat "nat + stat_t"
  | SysClose nat "nat option"
  | SysOpenat nat string "64 word" "32 word" "nat + nat"
  | SysWrite nat "byte list" "nat + nat"
  | SysFsync nat "nat option"
  | SysFchown nat int int "nat option"
  | SysUnlinkat nat string "nat option"
  | SysLinkat nat string nat string "64 word" "nat option"
  | SysRenameat nat string nat string "nat option"

type_synonym 's world = "'s \<times> event list"

text \<open>Constants of \<open>golang.org/x/sys/unix\<close> (linux/amd64).\<close>

definition AT_FDCWD :: int where "AT_FDCWD = - 100"
definition AT_EMPTY_PATH :: "64 word" where "AT_EMPTY_PATH = 0x1000"
definition O_RDONLY :: "64 word" where "O_RDONLY = 0x0"
definition O_WRONLY :: "64 word" where "O_WRONLY = 0x1"
definition O_RDWR :: "64 word" where "O_RDWR = 0x2"
definition O_CREAT :: "64 word" where "O_CREAT = 0x40"
definition O_EXCL :: "64 word" where "O_EXCL = 0x80"
definition O_DIRECTORY :: "64 word" where "O_DIRECTORY = 0x10000"
definition O_NOFOLLOW :: "64 word" where "O_NOFOLLOW = 0x20000"
definition O_PATH :: "64 word" where "O_PATH = 0x200000"
definition O_TMPFILE :: "64 word" where "O_TMPFILE = 0x410000"
definition RESOLVE_NO_XDEV :: "64 word" where "RESOLVE_NO_XDEV = 0x1"
definition RESOLVE_NO_MAGICLINKS :: "64 word" where "RESOLVE_NO_MAGICLINKS = 0x2"
definition RESOLVE_NO_SYMLINKS :: "64 word" where "RESOLVE_NO_SYMLINKS = 0x4"
definition S_IWOTH :: "32 word" where "S_IWOTH = 0x2"
definition S_ISVTX :: "32 word" where "S_ISVTX = 0x200"

subsection \<open>The wrappers of \<open>golang.org/x/sys/unix\<close>\<close>

definition unix_Openat2 ::
  "'s kernel \<Rightarrow> int \<Rightarrow> string \<Rightarrow> 64 word \<Rightarrow> 64 word \<Rightarrow> 's world \<Rightarrow> (error + nat) \<times> 's world" where
  "unix_Openat2 K dirfd path flags resolve w =
     (case w of (s, tr) \<Rightarrow>
        (case k_openat2 K dirfd path flags resolve s of (r, s') \<Rightarrow>
           (map_sum Errno id r, (s', tr @ [SysOpenat2 path flags resolve r]))))"

definition unix_Open ::
  "'s kernel \<Rightarrow> string \<Rightarrow> 64 word \<Rightarrow> 32 word \<Rightarrow> 's world \<Rightarrow> (error + nat) \<times> 's world" where
  "unix_Open K path flags perm w =
     (case w of (s, tr) \<Rightarrow>
        (case k_open K path flags perm s of (r, s') \<Rightarrow>
           (map_sum Errno id r, (s', tr @ [SysOpen path flags perm r]))))"

definition unix_Fstat :: "'s kernel \<Rightarrow> nat \<Rightarrow> 's world \<Rightarrow> (error + stat_t) \<times> 's world" where
  "unix_Fstat K fd w =
     (case w of (s, tr) \<Rightarrow>
        (case k_fstat K fd s of (r, s') \<Rightarrow>
           (map_sum Errno id r, (s', tr @ [SysFstat fd r]))))"

definition unix_Close :: "'s kernel \<Rightarrow> nat \<Rightarrow> 's world \<Rightarrow> error option \<times> 's world" where
  "unix_Close K fd w =
     (case w of (s, tr) \<Rightarrow>
        (case k_close K fd s of (r, s') \<Rightarrow>
           (map_option Errno r, (s', tr @ [SysClose fd r]))))"

definition unix_Openat ::
  "'s kernel \<Rightarrow> nat \<Rightarrow> string \<Rightarrow> 64 word \<Rightarrow> 32 word \<Rightarrow> 's world \<Rightarrow> (error + nat) \<times> 's world" where
  "unix_Openat K dirfd path flags perm w =
     (case w of (s, tr) \<Rightarrow>
        (case k_openat K dirfd path flags perm s of (r, s') \<Rightarrow>
           (map_sum Errno id r, (s', tr @ [SysOpenat dirfd path flags perm r]))))"

text \<open>
  \<open>unix.Write\<close> is one \<open>write(2)\<close>: it returns the count the kernel reports, which may be
  less than the length of the buffer, together with a \<open>nil\<close> error.
\<close>

definition unix_Write :: "'s kernel \<Rightarrow> nat \<Rightarrow> byte list \<Rightarrow> 's world \<Rightarrow> (error + nat) \<times> 's world" where
  "unix_Write K fd p w =
     (case w of (s, tr) \<Rightarrow>
        (case k_write K fd p s of
           (Inl e, s') \<Rightarrow> (Inl (Errno e), (s', tr @ [SysWrite fd p (Inl e)]))
         | (Inr n, s') \<Rightarrow>
             (Inr (min n (length p)), (s', tr @ [SysWrite fd p (Inr (min n (length p)))]))))"

definition unix_Fsync :: "'s kernel \<Rightarrow> nat \<Rightarrow> 's world \<Rightarrow> error option \<times> 's world" where
  "unix_Fsync K fd w =
     (case w of (s, tr) \<Rightarrow>
        (case k_fsync K fd s of (r, s') \<Rightarrow>
           (map_option Errno r, (s', tr @ [SysFsync fd r]))))"

definition unix_Fchown :: "'s kernel \<Rightarrow> nat \<Rightarrow> int \<Rightarrow> int \<Rightarrow> 's world \<Rightarrow> error option \<times> 's world" where
  "unix_Fchown K fd uid gid w =
     (case w of (s, tr) \<Rightarrow>
        (case k_fchown K fd uid gid s of (r, s') \<Rightarrow>
           (map_option Errno r, (s', tr @ [SysFchown fd uid gid r]))))"

definition unix_Unlinkat ::
  "'s kernel \<Rightarrow> nat \<Rightarrow> string \<Rightarrow> 64 word \<Rightarrow> 's world \<Rightarrow> error option \<times> 's world" where
  "unix_Unlinkat K dirfd path flags w =
     (case w of (s, tr) \<Rightarrow>
        (case k_unlinkat K dirfd path flags s of (r, s') \<Rightarrow>
           (map_option Errno r, (s', tr @ [SysUnlinkat dirfd path r]))))"

definition unix_Linkat ::
  "'s kernel \<Rightarrow> nat \<Rightarrow> string \<Rightarrow> nat \<Rightarrow> string \<Rightarrow> 64 word \<Rightarrow> 's world \<Rightarrow> error option \<times> 's world" where
  "unix_Linkat K olddirfd oldpath newdirfd newpath flags w =
     (case w of (s, tr) \<Rightarrow>
        (case k_linkat K olddirfd oldpath newdirfd newpath flags s of (r, s') \<Rightarrow>
           (map_option Errno r, (s', tr @ [SysLinkat olddirfd oldpath newdirfd newpath flags r]))))"

definition unix_Renameat ::
  "'s kernel \<Rightarrow> nat \<Rightarrow> string \<Rightarrow> nat \<Rightarrow> string \<Rightarrow> 's world \<Rightarrow> error option \<times> 's world" where
  "unix_Renameat K olddirfd oldpath newdirfd newpath w =
     (case w of (s, tr) \<Rightarrow>
        (case k_renameat K olddirfd oldpath newdirfd newpath s of (r, s') \<Rightarrow>
           (map_option Errno r, (s', tr @ [SysRenameat olddirfd oldpath newdirfd newpath r]))))"

section \<open>The directory opener\<close>

text \<open>\<open>openDirSecure\<close> (secureio.go, lines 97-115).\<close>

definition resolveFlags :: "bool \<Rightarrow> 64 word" where
  "resolveFlags noCrossDevice =
     (let r = RESOLVE_NO_SYMLINKS OR RESOLVE_NO_MAGICLINKS
      in if noCrossDevice then r OR RESOLVE_NO_XDEV else r)"

definition openDirSecure ::
  "'s kernel \<Rightarrow> string \<Rightarrow> bool \<Rightarrow> 's world \<Rightarrow> (error + nat) \<times> 's world" where
  "openDirSecure K path noCrossDevice w =
     (case unix_Openat2 K AT_FDCWD path (O_PATH OR O_DIRECTORY) (resolveFlags noCrossDevice) w of
        (Inr fd, w1) \<Rightarrow> (Inr fd, w1)
      | (Inl err, w1) \<Rightarrow>
          (if errors_Is_Errno err ENOSYS
           then unix_Open K path (O_RDONLY OR O_DIRECTORY OR O_NOFOLLOW) 0 w1
           else (Inl err, w1)))"

section \<open>Paths\<close>

text \<open>
  \<open>path/filepath\<close> on Unix: the separator is \<open>/\<close> and there is no volume name.
  \<open>Clean\<close> works on the elements between separators: it drops empty elements and
  \<open>.\<close>, lets \<open>..\<close> remove the element before it, drops a \<open>..\<close> that would climb
  above the root of a rooted path, and keeps the leading \<open>..\<close> elements of a path that is
  not rooted. The list \<open>out\<close> is the output buffer of \<open>Clean\<close>, last element first;
  its elements \<open>..\<close> are the ones below the index \<open>dotdot\<close> of the Go code.
\<close>

fun split_slash :: "string \<Rightarrow> string list" where
  "split_slash [] = [[]]"
| "split_slash (c # cs) =
     (if c = CHR ''/'' then [] # split_slash cs
      else (case split_slash cs of
              x # xs \<Rightarrow> (c # x) # xs
            | [] \<Rightarrow> [[c]]))"

fun join_slash :: "string list \<Rightarrow> string" where
  "join_slash [] = []"
| "join_slash [x] = x"
| "join_slash (x # y # ys) = x @ CHR ''/'' # join_slash (y # ys)"

fun clean_elems :: "bool \<Rightarrow> string list \<Rightarrow> string list \<Rightarrow> string list" where
  "clean_elems rooted out [] = rev out"
| "clean_elems rooted out (c # cs) =
     (if c = [] \<or> c = ''.'' then clean_elems rooted out cs
      else if c = ''..'' then
        (case out of
           [] \<Rightarrow> if rooted then clean_elems rooted [] cs else clean_elems rooted [''..''] cs
         | x # xs \<Rightarrow>
             if x = ''..'' then clean_elems rooted (''..'' # out) cs
             else clean_elems rooted xs cs)
      else clean_elems rooted (c # out) cs)"

definition filepath_Clean :: "string \<Rightarrow> string" where
  "filepath_Clean path =
     (if path = [] then ''.''
      else
        (let rooted = (hd path = CHR ''/'');
             out = join_slash (clean_elems rooted [] (split_slash path))
         in if rooted then CHR ''/'' # out
            else if out = [] then ''.'' else out))"

text \<open>\<open>filepath.Dir\<close>: everything up to and including the last separator, cleaned.\<close>

definition filepath_Dir :: "string \<Rightarrow> string" where
  "filepath_Dir path = filepath_Clean (rev (dropWhile (\<lambda>c. c \<noteq> CHR ''/'') (rev path)))"

text \<open>
  \<open>filepath.Base\<close>: the last element, after the trailing separators are stripped;
  \<open>.\<close> for the empty path and \<open>/\<close> for a path of separators only.
\<close>

definition filepath_Base :: "string \<Rightarrow> string" where
  "filepath_Base path =
     (if path = [] then ''.''
      else
        (let stripped = rev (dropWhile (\<lambda>c. c = CHR ''/'') (rev path));
             last_elem = rev (takeWhile (\<lambda>c. c \<noteq> CHR ''/'') (rev stripped))
         in if last_elem = [] then ''/'' else last_elem))"

text \<open>
  A path is rooted when it starts with the separator. A real element is a name: not
  empty, not \<open>.\<close>, not \<open>..\<close>, without a separator. \<open>canon L\<close> is the clean rooted
  path with the elements \<open>L\<close>.
\<close>

definition rooted :: "string \<Rightarrow> bool" where
  "rooted p = (p \<noteq> [] \<and> hd p = CHR ''/'')"

definition real_elem :: "string \<Rightarrow> bool" where
  "real_elem c = (c \<noteq> [] \<and> c \<noteq> ''.'' \<and> c \<noteq> ''..'' \<and> CHR ''/'' \<notin> set c)"

definition canon :: "string list \<Rightarrow> string" where
  "canon L = CHR ''/'' # join_slash L"

section \<open>The ancestor verifier\<close>

text \<open>
  \<open>verifyDirectorySecure\<close> (secureio.go, lines 68-95). The \<open>for\<close> loop has no bound, so
  the function is partial: \<open>None\<close> is a loop that never ends. The argument \<open>current\<close> is
  the loop variable, which starts as the \<open>path\<close> of the call.
\<close>

partial_function (option) verifyDirectorySecure ::
  "'s kernel \<Rightarrow> string \<Rightarrow> bool \<Rightarrow> 's world \<Rightarrow> (error option \<times> 's world) option" where
  "verifyDirectorySecure K current verifyAll w =
     (case openDirSecure K current True w of
        (Inl err, w1) \<Rightarrow>
          Some (Some (ErrorfW ''open directory %s: %w'' [ArgS current] err), w1)
      | (Inr fd, w1) \<Rightarrow>
          (case unix_Fstat K fd w1 of
             (Inl err, w2) \<Rightarrow>
               (case unix_Close K fd w2 of (_, w3) \<Rightarrow>
                  Some (Some (ErrorfW ''fstat directory %s: %w'' [ArgS current] err), w3))
           | (Inr stat, w2) \<Rightarrow>
               (case unix_Close K fd w2 of (_, w3) \<Rightarrow>
                  if Uid stat \<noteq> 0 then
                    Some (Some (Errorf ''directory %s not owned by root (uid=%d)''
                                  [ArgS current, ArgU (unat (Uid stat))]), w3)
                  else if Mode stat AND S_IWOTH \<noteq> 0 \<and> Mode stat AND S_ISVTX = 0 then
                    Some (Some (Errorf ''directory %s is world-writable without sticky bit''
                                  [ArgS current]), w3)
                  else if \<not> verifyAll \<or> current = ''/'' then Some (None, w3)
                  else verifyDirectorySecure K (filepath_Dir current) verifyAll w3)))"

declare verifyDirectorySecure.simps [code]

section \<open>\<open>os.File\<close>\<close>

text \<open>
  \<open>os.NewFile(fd, name)\<close> wraps a descriptor; the methods of the wrapper work on that
  descriptor and report a failure as a \<open>*PathError\<close> with the name given to \<open>NewFile\<close>.
  \<open>File.Write\<close> (through \<open>poll.FD.Write\<close>) calls \<open>write(2)\<close> on the rest of the buffer
  until the whole buffer is written, the kernel reports an error, or a call writes
  nothing; \<open>nn\<close> is the number of bytes written so far.
\<close>

function poll_FD_Write ::
  "'s kernel \<Rightarrow> nat \<Rightarrow> byte list \<Rightarrow> nat \<Rightarrow> 's world \<Rightarrow> (nat \<times> error option) \<times> 's world" where
  "poll_FD_Write K fd p nn w =
     (case unix_Write K fd (drop nn p) w of
        (Inl err, w1) \<Rightarrow> ((nn, Some err), w1)
      | (Inr n, w1) \<Rightarrow>
          (let nn' = (if n > 0 then nn + n else nn)
           in if nn' = length p then ((nn', None), w1)
              else if n = 0 then ((nn', Some ErrUnexpectedEOF), w1)
              else poll_FD_Write K fd p nn' w1))"
  by pat_completeness auto
termination
  apply (relation "measure (\<lambda>(K, fd, p, nn, w). length p - nn)")
   apply simp
  apply (auto simp: unix_Write_def split: prod.splits sum.splits if_splits)
  done

definition File_Write ::
  "'s kernel \<Rightarrow> nat \<Rightarrow> string \<Rightarrow> byte list \<Rightarrow> 's world \<Rightarrow> error option \<times> 's world" where
  "File_Write K fd name b w =
     (case poll_FD_Write K fd b 0 w of
        ((n, e), w1) \<Rightarrow>
          (let err = (if n \<noteq> length b then Some ErrShortWrite else None);
               err = (case e of Some e' \<Rightarrow> Some (PathError ''write'' name e') | None \<Rightarrow> err)
           in (err, w1)))"

definition File_Sync :: "'s kernel \<Rightarrow> nat \<Rightarrow> string \<Rightarrow> 's world \<Rightarrow> error option \<times> 's world" where
  "File_Sync K fd name w =
     (case unix_Fsync K fd w of
        (Some e, w1) \<Rightarrow> (Some (PathError ''sync'' name e), w1)
      | (None, w1) \<Rightarrow> (None, w1))"

definition File_Close :: "'s kernel \<Rightarrow> nat \<Rightarrow> string \<Rightarrow> 's world \<Rightarrow> error option \<times> 's world" where
  "File_Close K fd name w =
     (case unix_Close K fd w of
        (Some e, w1) \<Rightarrow> (Some (PathError ''close'' name e), w1)
      | (None, w1) \<Rightarrow> (None, w1))"

section \<open>The two write strategies\<close>

record WriteOptions =
  Perm :: "32 word"
  UID :: int
  GID :: int
  Sync :: bool
  VerifyAll :: bool
  NoCrossDevice :: bool

text \<open>
  A \<open>defer\<close> runs when the function returns, the last one registered first. Each
  strategy is cut at its \<open>defer\<close> statements: a definition holds the code that follows a
  \<open>defer\<close> up to the \<open>return\<close>, and its caller runs the deferred call on the world that
  comes back, whatever the result.
\<close>

text \<open>\<open>ultraParanoidWrite\<close>, lines 139-168: from the write to the last \<open>return\<close>.\<close>

definition ultra_after_tmp ::
  "'s kernel \<Rightarrow> string \<Rightarrow> string \<Rightarrow> byte list \<Rightarrow> WriteOptions \<Rightarrow> nat \<Rightarrow> nat \<Rightarrow> 's world
     \<Rightarrow> error option \<times> 's world" where
  "ultra_after_tmp K dirPath baseName data opts dirFd tmpFd w =
     (case unix_Write K tmpFd data w of
        (Inl err, w1) \<Rightarrow> (Some (ErrorfW ''write temp file: %w'' [] err), w1)
      | (Inr n, w1) \<Rightarrow>
     (case (if Sync opts then unix_Fsync K tmpFd w1 else (None, w1)) of
        (Some err, w2) \<Rightarrow> (Some (ErrorfW ''fsync temp file: %w'' [] err), w2)
      | (None, w2) \<Rightarrow>
     (case (if UID opts \<ge> 0 \<or> GID opts \<ge> 0
            then unix_Fchown K tmpFd (UID opts) (GID opts) w2 else (None, w2)) of
        (Some err, w3) \<Rightarrow> (Some (ErrorfW ''fchown temp file: %w'' [] err), w3)
      | (None, w3) \<Rightarrow>
     (case unix_Unlinkat K dirFd baseName 0 w3 of (_, w4) \<Rightarrow>
     (case unix_Linkat K tmpFd [] dirFd baseName AT_EMPTY_PATH w4 of
        (Some err, w5) \<Rightarrow> (Some (ErrorfW ''linkat temp file: %w'' [] err), w5)
      | (None, w5) \<Rightarrow>
     (if Sync opts then
        (case File_Sync K dirFd dirPath w5 of (r, w6) \<Rightarrow>
        (case File_Close K dirFd dirPath w6 of (_, w7) \<Rightarrow>
           (case r of
              Some err \<Rightarrow> (Some (ErrorfW ''sync directory: %w'' [] err), w7)
            | None \<Rightarrow> (None, w7))))
      else (None, w5)))))))"

text \<open>Lines 133-137, then the rest, then the deferred \<open>unix.Close(tmpFd)\<close>.\<close>

definition ultra_after_dir ::
  "'s kernel \<Rightarrow> string \<Rightarrow> string \<Rightarrow> byte list \<Rightarrow> WriteOptions \<Rightarrow> nat \<Rightarrow> 's world
     \<Rightarrow> error option \<times> 's world" where
  "ultra_after_dir K dirPath baseName data opts dirFd w =
     (case unix_Openat K dirFd [] (O_RDWR OR O_TMPFILE) (Perm opts) w of
        (Inl err, w1) \<Rightarrow> (Some (ErrorfW ''openat O_TMPFILE: %w'' [] err), w1)
      | (Inr tmpFd, w1) \<Rightarrow>
          (case ultra_after_tmp K dirPath baseName data opts dirFd tmpFd w1 of (r, w2) \<Rightarrow>
          (case unix_Close K tmpFd w2 of (_, w3) \<Rightarrow> (r, w3))))"

text \<open>Lines 127-131, then the rest, then the deferred \<open>unix.Close(dirFd)\<close>.\<close>

definition ultra_after_verify ::
  "'s kernel \<Rightarrow> string \<Rightarrow> string \<Rightarrow> byte list \<Rightarrow> WriteOptions \<Rightarrow> 's world
     \<Rightarrow> error option \<times> 's world" where
  "ultra_after_verify K dirPath baseName data opts w =
     (case openDirSecure K dirPath (NoCrossDevice opts) w of
        (Inl err, w1) \<Rightarrow> (Some (ErrorfW ''open directory secure: %w'' [] err), w1)
      | (Inr dirFd, w1) \<Rightarrow>
          (case ultra_after_dir K dirPath baseName data opts dirFd w1 of (r, w2) \<Rightarrow>
          (case unix_Close K dirFd w2 of (_, w3) \<Rightarrow> (r, w3))))"

text \<open>\<open>ultraParanoidWrite\<close> (secureio.go, lines 117-169).\<close>

definition ultraParanoidWrite ::
  "'s kernel \<Rightarrow> string \<Rightarrow> byte list \<Rightarrow> WriteOptions \<Rightarrow> 's world
     \<Rightarrow> (error option \<times> 's world) option" where
  "ultraParanoidWrite K path data opts w =
     (let dirPath = filepath_Dir path;
          baseName = filepath_Base path
      in case (if VerifyAll opts then verifyDirectorySecure K dirPath True w
               else Some (None, w)) of
           None \<Rightarrow> None
         | Some (Some err, w1) \<Rightarrow> Some (Some err, w1)
         | Some (None, w1) \<Rightarrow> Some (ultra_after_verify K dirPath baseName data opts w1))"

text \<open>\<open>paranoidAtomicWrite\<close>, lines 197-230: from the write to the last \<open>return\<close>.\<close>

definition paranoid_after_tmp ::
  "'s kernel \<Rightarrow> string \<Rightarrow> string \<Rightarrow> string \<Rightarrow> byte list \<Rightarrow> WriteOptions \<Rightarrow> nat \<Rightarrow> nat
     \<Rightarrow> 's world \<Rightarrow> error option \<times> 's world" where
  "paranoid_after_tmp K dirPath baseName tmpName data opts dirFd tmpFd w =
     (case File_Write K tmpFd tmpName data w of
        (Some err, w1) \<Rightarrow> (Some (ErrorfW ''write temp file: %w'' [] err), w1)
      | (None, w1) \<Rightarrow>
     (case (if Sync opts then File_Sync K tmpFd tmpName w1 else (None, w1)) of
        (Some err, w2) \<Rightarrow> (Some (ErrorfW ''fsync temp file: %w'' [] err), w2)
      | (None, w2) \<Rightarrow>
     (case (if UID opts \<ge> 0 \<or> GID opts \<ge> 0
            then unix_Fchown K tmpFd (UID opts) (GID opts) w2 else (None, w2)) of
        (Some err, w3) \<Rightarrow> (Some (ErrorfW ''fchown temp file: %w'' [] err), w3)
      | (None, w3) \<Rightarrow>
     (case File_Close K tmpFd tmpName w3 of
        (Some err, w4) \<Rightarrow> (Some (ErrorfW ''close temp file: %w'' [] err), w4)
      | (None, w4) \<Rightarrow>
     (case unix_Unlinkat K dirFd baseName 0 w4 of (_, w5) \<Rightarrow>
     (case unix_Renameat K dirFd tmpName dirFd baseName w5 of
        (Some err, w6) \<Rightarrow> (Some (ErrorfW ''rename temp file: %w'' [] err), w6)
      | (None, w6) \<Rightarrow>
     (if Sync opts then
        (case File_Sync K dirFd dirPath w6 of (r, w7) \<Rightarrow>
        (case File_Close K dirFd dirPath w7 of (_, w8) \<Rightarrow>
           (case r of
              Some err \<Rightarrow> (Some (ErrorfW ''sync directory: %w'' [] err), w8)
            | None \<Rightarrow> (None, w8))))
      else (None, w6))))))))"

text \<open>
  Lines 188-195, then the rest, then the deferred function: \<open>unix.Close(tmpFd)\<close> and
  \<open>unix.Unlinkat(dirFd, tmpName, 0)\<close>.
\<close>

definition paranoid_after_dir ::
  "'s kernel \<Rightarrow> string \<Rightarrow> string \<Rightarrow> string \<Rightarrow> byte list \<Rightarrow> WriteOptions \<Rightarrow> nat
     \<Rightarrow> 's world \<Rightarrow> error option \<times> 's world" where
  "paranoid_after_dir K dirPath baseName tmpName data opts dirFd w =
     (case unix_Openat K dirFd tmpName (O_WRONLY OR O_CREAT OR O_EXCL OR O_NOFOLLOW)
             (Perm opts) w of
        (Inl err, w1) \<Rightarrow> (Some (ErrorfW ''openat temp file: %w'' [] err), w1)
      | (Inr tmpFd, w1) \<Rightarrow>
          (case paranoid_after_tmp K dirPath baseName tmpName data opts dirFd tmpFd w1 of
             (r, w2) \<Rightarrow>
          (case unix_Close K tmpFd w2 of (_, w3) \<Rightarrow>
          (case unix_Unlinkat K dirFd tmpName 0 w3 of (_, w4) \<Rightarrow> (r, w4)))))"

text \<open>Lines 182-186, then the rest, then the deferred \<open>unix.Close(dirFd)\<close>.\<close>

definition paranoid_after_verify ::
  "'s kernel \<Rightarrow> string \<Rightarrow> string \<Rightarrow> string \<Rightarrow> byte list \<Rightarrow> WriteOptions \<Rightarrow> 's world
     \<Rightarrow> error option \<times> 's world" where
  "paranoid_after_verify K dirPath baseName tmpName data opts w =
     (case openDirSecure K dirPath (NoCrossDevice opts) w of
        (Inl err, w1) \<Rightarrow> (Some (ErrorfW ''open directory secure: %w'' [] err), w1)
      | (Inr dirFd, w1) \<Rightarrow>
          (case paranoid_after_dir K dirPath baseName tmpName data opts dirFd w1 of
             (r, w2) \<Rightarrow>
          (case unix_Close K dirFd w2 of (_, w3) \<Rightarrow> (r, w3))))"

text \<open>\<open>paranoidAtomicWrite\<close> (secureio.go, lines 171-231).\<close>

definition paranoidAtomicWrite ::
  "'s kernel \<Rightarrow> string \<Rightarrow> byte list \<Rightarrow> WriteOptions \<Rightarrow> 's world
     \<Rightarrow> (error option \<times> 's world) option" where
  "paranoidAtomicWrite K path data opts w =
     (let dirPath = filepath_Dir path;
          baseName = filepath_Base path;
          tmpName = ''.'' @ baseName @ ''.tmp''
      in case (if VerifyAll opts then verifyDirectorySecure K dirPath True w
               else Some (None, w)) of
           None \<Rightarrow> None
         | Some (Some err, w1) \<Rightarrow> Some (Some err, w1)
         | Some (None, w1) \<Rightarrow>
             Some (paranoid_after_verify K dirPath baseName tmpName data opts w1))"

section \<open>The dispatcher and the entry points\<close>

text \<open>\<open>secureAtomicWriteInternal\<close> (secureio.go, lines 49-55).\<close>

definition secureAtomicWriteInternal ::
  "'s kernel \<Rightarrow> string \<Rightarrow> byte list \<Rightarrow> WriteOptions \<Rightarrow> 's world
     \<Rightarrow> (error option \<times> 's world) option" where
  "secureAtomicWriteInternal K path data opts w =
     (case ultraParanoidWrite K path data opts w of
        None \<Rightarrow> None
      | Some (err, w1) \<Rightarrow>
          if fallbackNeeded err then paranoidAtomicWrite K path data opts w1
          else Some (err, w1))"

text \<open>The four exported functions (secureio.go, lines 24-45).\<close>

definition SecureAtomicWrite ::
  "'s kernel \<Rightarrow> string \<Rightarrow> byte list \<Rightarrow> 32 word \<Rightarrow> 's world
     \<Rightarrow> (error option \<times> 's world) option" where
  "SecureAtomicWrite K path data perm w =
     (let opts = \<lparr>Perm = perm, UID = - 1, GID = - 1, Sync = True, VerifyAll = False,
                  NoCrossDevice = True\<rparr>
      in secureAtomicWriteInternal K path data opts w)"

definition SecureAtomicWriteRoot ::
  "'s kernel \<Rightarrow> string \<Rightarrow> byte list \<Rightarrow> 32 word \<Rightarrow> 's world
     \<Rightarrow> (error option \<times> 's world) option" where
  "SecureAtomicWriteRoot K path data perm w =
     (let opts = \<lparr>Perm = perm, UID = - 1, GID = - 1, Sync = True, VerifyAll = False,
                  NoCrossDevice = True\<rparr>
      in secureAtomicWriteInternal K path data opts w)"

definition SecureAtomicWriteRootStrict ::
  "'s kernel \<Rightarrow> string \<Rightarrow> byte list \<Rightarrow> 32 word \<Rightarrow> 's world
     \<Rightarrow> (error option \<times> 's world) option" where
  "SecureAtomicWriteRootStrict K path data perm w =
     (let opts = \<lparr>Perm = perm, UID = - 1, GID = - 1, Sync = True, VerifyAll = True,
                  NoCrossDevice = True\<rparr>
      in secureAtomicWriteInternal K path data opts w)"

definition SecureAtomicWriteWithOptions ::
  "'s kernel \<Rightarrow> string \<Rightarrow> byte list \<Rightarrow> WriteOptions \<Rightarrow> 's world
     \<Rightarrow> (error option \<times> 's world) option" where
  "SecureAtomicWriteWithOptions K path data opts w =
     secureAtomicWriteInternal K path data opts w"

section \<open>A small kernel\<close>

text \<open>
  One kernel to run the code on: a table of directories by path, directory entries that
  name inodes, the contents of the inodes and a table of open descriptors. Four switches
  choose the environment: whether \<open>openat2\<close> exists, the errno of creating an anonymous
  temporary file (\<open>None\<close> where the file system can), the most bytes one \<open>write(2)\<close>
  takes, and for each directory whether reaching it crosses a mount point.
\<close>

datatype fd_obj = FdDir string | FdFile nat

record dir_info =
  d_stat :: stat_t
  d_xdev :: bool

record fsys =
  has_openat2 :: bool
  tmpfile_errno :: "nat option"
  write_limit :: "nat option"
  dirs :: "string \<Rightarrow> dir_info option"
  entries :: "string \<times> string \<Rightarrow> nat option"
  inodes :: "nat \<Rightarrow> byte list option"
  fdtab :: "nat \<Rightarrow> fd_obj option"
  next_fd :: nat
  next_ino :: nat

definition fs_new_fd :: "fd_obj \<Rightarrow> fsys \<Rightarrow> (nat + nat) \<times> fsys" where
  "fs_new_fd obj s =
     (Inr (next_fd s), s\<lparr>fdtab := (fdtab s)(next_fd s \<mapsto> obj), next_fd := Suc (next_fd s)\<rparr>)"

text \<open>Opening as a directory a path that is not one: it names a file, or nothing.\<close>

definition fs_missing :: "fsys \<Rightarrow> string \<Rightarrow> nat" where
  "fs_missing s path =
     (case entries s (filepath_Dir path, filepath_Base path) of
        Some i \<Rightarrow> ENOTDIR
      | None \<Rightarrow> ENOENT)"

definition fs_openat2 :: "int \<Rightarrow> string \<Rightarrow> 64 word \<Rightarrow> 64 word \<Rightarrow> fsys \<Rightarrow> (nat + nat) \<times> fsys" where
  "fs_openat2 dirfd path flags resolve s =
     (if \<not> has_openat2 s then (Inl ENOSYS, s)
      else case dirs s path of
             None \<Rightarrow> (Inl (fs_missing s path), s)
           | Some d \<Rightarrow>
               if d_xdev d \<and> resolve AND RESOLVE_NO_XDEV \<noteq> 0 then (Inl EXDEV, s)
               else fs_new_fd (FdDir path) s)"

definition fs_open :: "string \<Rightarrow> 64 word \<Rightarrow> 32 word \<Rightarrow> fsys \<Rightarrow> (nat + nat) \<times> fsys" where
  "fs_open path flags perm s =
     (case dirs s path of
        None \<Rightarrow> (Inl (fs_missing s path), s)
      | Some d \<Rightarrow> fs_new_fd (FdDir path) s)"

definition fs_fstat :: "nat \<Rightarrow> fsys \<Rightarrow> (nat + stat_t) \<times> fsys" where
  "fs_fstat fd s =
     (case fdtab s fd of
        Some (FdDir p) \<Rightarrow>
          (case dirs s p of None \<Rightarrow> (Inl ENOENT, s) | Some d \<Rightarrow> (Inr (d_stat d), s))
      | Some (FdFile i) \<Rightarrow> (Inr \<lparr>Uid = 0, Mode = 0x81A4\<rparr>, s)
      | None \<Rightarrow> (Inl EBADF, s))"

definition fs_close :: "nat \<Rightarrow> fsys \<Rightarrow> nat option \<times> fsys" where
  "fs_close fd s =
     (case fdtab s fd of
        None \<Rightarrow> (Some EBADF, s)
      | Some obj \<Rightarrow> (None, s\<lparr>fdtab := (fdtab s)(fd := None)\<rparr>))"

definition fs_new_file :: "(string \<times> string) option \<Rightarrow> fsys \<Rightarrow> (nat + nat) \<times> fsys" where
  "fs_new_file name s =
     (let i = next_ino s;
          s1 = s\<lparr>inodes := (inodes s)(i \<mapsto> []), next_ino := Suc i\<rparr>;
          s2 = (case name of None \<Rightarrow> s1 | Some pn \<Rightarrow> s1\<lparr>entries := (entries s1)(pn \<mapsto> i)\<rparr>)
      in fs_new_fd (FdFile i) s2)"

definition fs_openat :: "nat \<Rightarrow> string \<Rightarrow> 64 word \<Rightarrow> 32 word \<Rightarrow> fsys \<Rightarrow> (nat + nat) \<times> fsys" where
  "fs_openat dirfd name flags perm s =
     (case fdtab s dirfd of
        Some (FdDir p) \<Rightarrow>
          if flags AND O_TMPFILE = O_TMPFILE then
            (case tmpfile_errno s of
               Some e \<Rightarrow> (Inl e, s)
             | None \<Rightarrow> fs_new_file None s)
          else
            (case entries s (p, name) of
               Some i \<Rightarrow>
                 if flags AND O_CREAT \<noteq> 0 \<and> flags AND O_EXCL \<noteq> 0 then (Inl EEXIST, s)
                 else fs_new_fd (FdFile i) s
             | None \<Rightarrow>
                 if flags AND O_CREAT \<noteq> 0 then fs_new_file (Some (p, name)) s
                 else (Inl ENOENT, s))
      | Some (FdFile i) \<Rightarrow> (Inl ENOTDIR, s)
      | None \<Rightarrow> (Inl EBADF, s))"

definition fs_write :: "nat \<Rightarrow> byte list \<Rightarrow> fsys \<Rightarrow> (nat + nat) \<times> fsys" where
  "fs_write fd buf s =
     (case fdtab s fd of
        Some (FdFile i) \<Rightarrow>
          (let n = (case write_limit s of None \<Rightarrow> length buf | Some k \<Rightarrow> min k (length buf));
               old = (case inodes s i of None \<Rightarrow> [] | Some c \<Rightarrow> c)
           in (Inr n, s\<lparr>inodes := (inodes s)(i \<mapsto> old @ take n buf)\<rparr>))
      | Some (FdDir p) \<Rightarrow> (Inl EBADF, s)
      | None \<Rightarrow> (Inl EBADF, s))"

definition fs_fsync :: "nat \<Rightarrow> fsys \<Rightarrow> nat option \<times> fsys" where
  "fs_fsync fd s = (case fdtab s fd of None \<Rightarrow> (Some EBADF, s) | Some obj \<Rightarrow> (None, s))"

definition fs_fchown :: "nat \<Rightarrow> int \<Rightarrow> int \<Rightarrow> fsys \<Rightarrow> nat option \<times> fsys" where
  "fs_fchown fd uid gid s =
     (case fdtab s fd of None \<Rightarrow> (Some EBADF, s) | Some obj \<Rightarrow> (None, s))"

definition fs_unlinkat :: "nat \<Rightarrow> string \<Rightarrow> 64 word \<Rightarrow> fsys \<Rightarrow> nat option \<times> fsys" where
  "fs_unlinkat dirfd name flags s =
     (case fdtab s dirfd of
        Some (FdDir p) \<Rightarrow>
          (case entries s (p, name) of
             None \<Rightarrow> (Some ENOENT, s)
           | Some i \<Rightarrow> (None, s\<lparr>entries := (entries s)((p, name) := None)\<rparr>))
      | Some (FdFile i) \<Rightarrow> (Some ENOTDIR, s)
      | None \<Rightarrow> (Some EBADF, s))"

definition fs_linkat ::
  "nat \<Rightarrow> string \<Rightarrow> nat \<Rightarrow> string \<Rightarrow> 64 word \<Rightarrow> fsys \<Rightarrow> nat option \<times> fsys" where
  "fs_linkat oldfd oldpath newdirfd newpath flags s =
     (case (fdtab s oldfd, fdtab s newdirfd) of
        (Some (FdFile i), Some (FdDir p)) \<Rightarrow>
          if oldpath \<noteq> [] \<or> flags AND AT_EMPTY_PATH = 0 then (Some ENOENT, s)
          else
            (case entries s (p, newpath) of
               Some j \<Rightarrow> (Some EEXIST, s)
             | None \<Rightarrow> (None, s\<lparr>entries := (entries s)((p, newpath) \<mapsto> i)\<rparr>))
      | _ \<Rightarrow> (Some EBADF, s))"

definition fs_renameat :: "nat \<Rightarrow> string \<Rightarrow> nat \<Rightarrow> string \<Rightarrow> fsys \<Rightarrow> nat option \<times> fsys" where
  "fs_renameat olddirfd oldpath newdirfd newpath s =
     (case (fdtab s olddirfd, fdtab s newdirfd) of
        (Some (FdDir p), Some (FdDir q)) \<Rightarrow>
          (case entries s (p, oldpath) of
             None \<Rightarrow> (Some ENOENT, s)
           | Some i \<Rightarrow>
               (None, s\<lparr>entries := ((entries s)((p, oldpath) := None))((q, newpath) \<mapsto> i)\<rparr>))
      | _ \<Rightarrow> (Some EBADF, s))"

definition fs_kernel :: "fsys kernel" where
  "fs_kernel =
     \<lparr>k_openat2 = fs_openat2, k_open = fs_open, k_fstat = fs_fstat, k_close = fs_close,
      k_openat = fs_openat, k_write = fs_write, k_fsync = fs_fsync, k_fchown = fs_fchown,
      k_unlinkat = fs_unlinkat, k_linkat = fs_linkat, k_renameat = fs_renameat\<rparr>"

text \<open>The content of the file that a directory entry names, if there is one.\<close>

definition fs_read :: "fsys \<Rightarrow> string \<Rightarrow> string \<Rightarrow> byte list option" where
  "fs_read s dir name = (case entries s (dir, name) of None \<Rightarrow> None | Some i \<Rightarrow> inodes s i)"

text \<open>What a call returned, the system calls it made, and the state it left.\<close>

definition result_of :: "(error option \<times> 's world) option \<Rightarrow> error option option" where
  "result_of r = map_option fst r"

definition trace_of :: "(error option \<times> 's world) option \<Rightarrow> event list" where
  "trace_of r = (case r of None \<Rightarrow> [] | Some (e, (s, tr)) \<Rightarrow> tr)"

definition state_of :: "(error option \<times> 's world) option \<Rightarrow> 's option" where
  "state_of r = (case r of None \<Rightarrow> None | Some (e, (s, tr)) \<Rightarrow> Some s)"

text \<open>
  A machine with a root-owned \<open>/\<close> and \<open>/etc\<close>, a home directory owned by user 1000,
  a data directory behind a mount point, and a root-owned working directory.
\<close>

definition root_dir :: dir_info where
  "root_dir = \<lparr>d_stat = \<lparr>Uid = 0, Mode = 0x41ED\<rparr>, d_xdev = False\<rparr>"

definition fs0 :: fsys where
  "fs0 =
     \<lparr>has_openat2 = True, tmpfile_errno = None, write_limit = None,
      dirs = [''/'' \<mapsto> root_dir, ''/etc'' \<mapsto> root_dir, ''.'' \<mapsto> root_dir,
              ''/home'' \<mapsto> root_dir,
              ''/home/u'' \<mapsto> \<lparr>d_stat = \<lparr>Uid = 1000, Mode = 0x41ED\<rparr>, d_xdev = False\<rparr>,
              ''/data'' \<mapsto> \<lparr>d_stat = \<lparr>Uid = 0, Mode = 0x41ED\<rparr>, d_xdev = True\<rparr>],
      entries = Map.empty, inodes = Map.empty, fdtab = Map.empty,
      next_fd = 3, next_ino = 1\<rparr>"

definition opts0 :: WriteOptions where
  "opts0 = \<lparr>Perm = 0x180, UID = - 1, GID = - 1, Sync = True, VerifyAll = False,
            NoCrossDevice = True\<rparr>"

text \<open>The same machine on a file system without anonymous temporary files, and on a full one.\<close>

definition fs_no_tmpfile :: fsys where
  "fs_no_tmpfile = fs0\<lparr>tmpfile_errno := Some EOPNOTSUPP\<rparr>"

definition fs_full :: fsys where
  "fs_full = fs0\<lparr>tmpfile_errno := Some ENOSPC\<rparr>"

text \<open>The same machine on a kernel older than \<open>openat2\<close>.\<close>

definition fs_old :: fsys where
  "fs_old = fs0\<lparr>has_openat2 := False\<rparr>"

section \<open>The system calls of a run\<close>

text \<open>
  \<open>extends_by P w w'\<close>: the trace of \<open>w'\<close> is the trace of \<open>w\<close> followed by
  events that all satisfy \<open>P\<close>. The three predicates that follow list the system calls
  of the verifier and of each write strategy, with the arguments the source fixes.
\<close>

definition extends_by :: "(event \<Rightarrow> bool) \<Rightarrow> 's world \<Rightarrow> 's world \<Rightarrow> bool" where
  "extends_by P w w' = (\<exists>evs. snd w' = snd w @ evs \<and> list_all P evs)"

definition verify_event :: "event \<Rightarrow> bool" where
  "verify_event ev =
     (case ev of
        SysOpenat2 p fl rs r \<Rightarrow>
          fl = O_PATH OR O_DIRECTORY \<and> rs AND RESOLVE_NO_XDEV = RESOLVE_NO_XDEV
      | SysOpen p fl pm r \<Rightarrow> fl = O_RDONLY OR O_DIRECTORY OR O_NOFOLLOW
      | SysFstat fd r \<Rightarrow> True
      | SysClose fd r \<Rightarrow> True
      | _ \<Rightarrow> False)"

definition ultra_event :: "string \<Rightarrow> string \<Rightarrow> event \<Rightarrow> bool" where
  "ultra_event dirPath baseName ev =
     (case ev of
        SysOpenat2 p fl rs r \<Rightarrow> p = dirPath
      | SysOpen p fl pm r \<Rightarrow> p = dirPath
      | SysFstat fd r \<Rightarrow> False
      | SysClose fd r \<Rightarrow> True
      | SysOpenat fd n fl pm r \<Rightarrow> n = [] \<and> fl = O_RDWR OR O_TMPFILE
      | SysWrite fd b r \<Rightarrow> True
      | SysFsync fd r \<Rightarrow> True
      | SysFchown fd u g r \<Rightarrow> True
      | SysUnlinkat fd n r \<Rightarrow> n = baseName
      | SysLinkat fd n fd' n' fl r \<Rightarrow> n = [] \<and> n' = baseName \<and> fl = AT_EMPTY_PATH
      | SysRenameat fd n fd' n' r \<Rightarrow> False)"

definition paranoid_event :: "string \<Rightarrow> string \<Rightarrow> string \<Rightarrow> event \<Rightarrow> bool" where
  "paranoid_event dirPath baseName tmpName ev =
     (case ev of
        SysOpenat2 p fl rs r \<Rightarrow> p = dirPath
      | SysOpen p fl pm r \<Rightarrow> p = dirPath
      | SysFstat fd r \<Rightarrow> False
      | SysClose fd r \<Rightarrow> True
      | SysOpenat fd n fl pm r \<Rightarrow>
          n = tmpName \<and> fl = O_WRONLY OR O_CREAT OR O_EXCL OR O_NOFOLLOW
      | SysWrite fd b r \<Rightarrow> True
      | SysFsync fd r \<Rightarrow> True
      | SysFchown fd u g r \<Rightarrow> True
      | SysUnlinkat fd n r \<Rightarrow> n = baseName \<or> n = tmpName
      | SysLinkat fd n fd' n' fl r \<Rightarrow> False
      | SysRenameat fd n fd' n' r \<Rightarrow> n = tmpName \<and> n' = baseName)"

text \<open>
  The errors of the verifier: its two rejections, and a failure of the kernel to open or
  to fstat a directory, which wraps the errno \<open>e\<close>.
\<close>

definition verifier_rejection :: "error \<Rightarrow> bool" where
  "verifier_rejection err =
     ((\<exists>c u. err = Errorf ''directory %s not owned by root (uid=%d)'' [ArgS c, ArgU u]) \<or>
      (\<exists>c. err = Errorf ''directory %s is world-writable without sticky bit'' [ArgS c]))"

definition verifier_io_error :: "error \<Rightarrow> nat \<Rightarrow> bool" where
  "verifier_io_error err e =
     (\<exists>c. err = ErrorfW ''open directory %s: %w'' [ArgS c] (Errno e) \<or>
          err = ErrorfW ''fstat directory %s: %w'' [ArgS c] (Errno e))"

text \<open>A state of the small kernel with \<open>openat2\<close> and a root-owned working directory.\<close>

definition root_cwd :: "fsys \<Rightarrow> bool" where
  "root_cwd s = (has_openat2 s \<and> dirs s ''.'' = Some root_dir)"

text \<open>The bytes that the \<open>write(2)\<close> calls of a trace took.\<close>

fun bytes_taken :: "event list \<Rightarrow> nat" where
  "bytes_taken [] = 0"
| "bytes_taken (SysWrite fd b (Inr n) # evs) = n + bytes_taken evs"
| "bytes_taken (ev # evs) = bytes_taken evs"

text \<open>An event that reads the owner and mode of a descriptor.\<close>

definition is_fstat :: "event \<Rightarrow> bool" where
  "is_fstat ev = (case ev of SysFstat fd r \<Rightarrow> True | _ \<Rightarrow> False)"

text \<open>An event that names the entry \<open>n\<close> of a directory.\<close>

definition names_entry :: "string \<Rightarrow> event \<Rightarrow> bool" where
  "names_entry n ev =
     (case ev of
        SysOpenat fd p fl pm r \<Rightarrow> p = n
      | SysUnlinkat fd p r \<Rightarrow> p = n
      | SysLinkat fd p fd' p' fl r \<Rightarrow> p = n \<or> p' = n
      | SysRenameat fd p fd' p' r \<Rightarrow> p = n \<or> p' = n
      | _ \<Rightarrow> False)"

text \<open>The content of a file after a call that returned.\<close>

definition file_after ::
  "(error option \<times> fsys world) option \<Rightarrow> string \<Rightarrow> string \<Rightarrow> byte list option" where
  "file_after r dir name = (case state_of r of None \<Rightarrow> None | Some s \<Rightarrow> fs_read s dir name)"

text \<open>
  More machines: one whose \<open>/etc\<close> holds a leftover \<open>.app.conf.tmp\<close> and has no
  anonymous temporary files, one whose \<open>write(2)\<close> takes two bytes at a time, and one
  with a regular file \<open>/etc/passwd\<close>.
\<close>

definition fs_stray :: fsys where
  "fs_stray =
     fs_no_tmpfile\<lparr>entries := [(''/etc'', ''.app.conf.tmp'') \<mapsto> 1], inodes := [1 \<mapsto> [9, 9]],
                   next_ino := 2\<rparr>"

definition fs_stray_tmpfile :: fsys where
  "fs_stray_tmpfile = fs_stray\<lparr>tmpfile_errno := None\<rparr>"

definition fs_short :: fsys where
  "fs_short = fs0\<lparr>write_limit := Some 2\<rparr>"

definition fs_short_no_tmpfile :: fsys where
  "fs_short_no_tmpfile = fs_no_tmpfile\<lparr>write_limit := Some 2\<rparr>"

definition fs_file :: fsys where
  "fs_file =
     fs0\<lparr>entries := [(''/etc'', ''passwd'') \<mapsto> 1], inodes := [1 \<mapsto> [7]], next_ino := 2\<rparr>"

section \<open>Unfolding the model on a concrete input\<close>

declare poll_FD_Write.simps [simp del]

lemmas unix_defs =
  unix_Openat2_def unix_Open_def unix_Fstat_def unix_Close_def unix_Openat_def
  unix_Write_def unix_Fsync_def unix_Fchown_def unix_Unlinkat_def unix_Linkat_def
  unix_Renameat_def File_Sync_def File_Close_def File_Write_def

lemmas fs_defs =
  fs_kernel_def fs_new_fd_def fs_missing_def fs_openat2_def fs_open_def fs_fstat_def
  fs_close_def fs_new_file_def fs_openat_def fs_write_def fs_fsync_def fs_fchown_def
  fs_unlinkat_def fs_linkat_def fs_renameat_def fs_read_def

lemmas const_defs =
  AT_FDCWD_def AT_EMPTY_PATH_def O_RDONLY_def O_WRONLY_def O_RDWR_def O_CREAT_def
  O_EXCL_def O_DIRECTORY_def O_NOFOLLOW_def O_PATH_def O_TMPFILE_def RESOLVE_NO_XDEV_def
  RESOLVE_NO_MAGICLINKS_def RESOLVE_NO_SYMLINKS_def S_IWOTH_def S_ISVTX_def
  EPERM_def ENOTDIR_def EINVAL_def ENOSYS_def EOPNOTSUPP_def EEXIST_def ENOENT_def
  EXDEV_def EBADF_def ENOSPC_def

lemmas path_defs = filepath_Dir_def filepath_Base_def filepath_Clean_def

lemmas write_defs =
  secureAtomicWriteInternal_def ultraParanoidWrite_def ultra_after_verify_def
  ultra_after_dir_def ultra_after_tmp_def openDirSecure_def resolveFlags_def
  paranoidAtomicWrite_def paranoid_after_verify_def paranoid_after_dir_def
  paranoid_after_tmp_def fallbackNeeded_def

lemmas entry_defs =
  SecureAtomicWrite_def SecureAtomicWriteRoot_def SecureAtomicWriteRootStrict_def
  SecureAtomicWriteWithOptions_def

lemmas world_defs =
  result_of_def trace_of_def state_of_def fs0_def root_dir_def opts0_def
  fs_no_tmpfile_def fs_full_def fs_old_def file_after_def fs_stray_def fs_stray_tmpfile_def
  fs_short_def fs_short_no_tmpfile_def fs_file_def

lemmas eval_defs =
  entry_defs write_defs unix_defs fs_defs const_defs path_defs world_defs Let_def

section \<open>What each part of the code asks of the kernel\<close>

lemma extends_by_refl: "extends_by P w w"
  by (simp add: extends_by_def)

lemma extends_by_trans: "extends_by P w w1 \<Longrightarrow> extends_by P w1 w2 \<Longrightarrow> extends_by P w w2"
  by (auto simp: extends_by_def)

lemma extends_by_mono: "extends_by P w w' \<Longrightarrow> (\<And>e. P e \<Longrightarrow> Q e) \<Longrightarrow> extends_by Q w w'"
  by (auto simp: extends_by_def list_all_iff)

lemma unix_Openat2_tr:
  "unix_Openat2 K d p fl rs w = (r, w') \<Longrightarrow> \<exists>x. snd w' = snd w @ [SysOpenat2 p fl rs x]"
  by (auto simp: unix_Openat2_def split: prod.splits)

lemma unix_Open_tr:
  "unix_Open K p fl pm w = (r, w') \<Longrightarrow> \<exists>x. snd w' = snd w @ [SysOpen p fl pm x]"
  by (auto simp: unix_Open_def split: prod.splits)

lemma unix_Fstat_tr:
  "unix_Fstat K fd w = (r, w') \<Longrightarrow> \<exists>x. snd w' = snd w @ [SysFstat fd x]"
  by (auto simp: unix_Fstat_def split: prod.splits)

lemma unix_Close_tr:
  "unix_Close K fd w = (r, w') \<Longrightarrow> \<exists>x. snd w' = snd w @ [SysClose fd x]"
  by (auto simp: unix_Close_def split: prod.splits)

lemma unix_Openat_tr:
  "unix_Openat K d p fl pm w = (r, w') \<Longrightarrow> \<exists>x. snd w' = snd w @ [SysOpenat d p fl pm x]"
  by (auto simp: unix_Openat_def split: prod.splits)

lemma unix_Write_tr:
  "unix_Write K fd b w = (r, w') \<Longrightarrow> \<exists>x. snd w' = snd w @ [SysWrite fd b x]"
  by (auto simp: unix_Write_def split: prod.splits sum.splits)

lemma unix_Fsync_tr:
  "unix_Fsync K fd w = (r, w') \<Longrightarrow> \<exists>x. snd w' = snd w @ [SysFsync fd x]"
  by (auto simp: unix_Fsync_def split: prod.splits)

lemma unix_Fchown_tr:
  "unix_Fchown K fd u g w = (r, w') \<Longrightarrow> \<exists>x. snd w' = snd w @ [SysFchown fd u g x]"
  by (auto simp: unix_Fchown_def split: prod.splits)

lemma unix_Unlinkat_tr:
  "unix_Unlinkat K d p fl w = (r, w') \<Longrightarrow> \<exists>x. snd w' = snd w @ [SysUnlinkat d p x]"
  by (auto simp: unix_Unlinkat_def split: prod.splits)

lemma unix_Linkat_tr:
  "unix_Linkat K d p d' p' fl w = (r, w') \<Longrightarrow> \<exists>x. snd w' = snd w @ [SysLinkat d p d' p' fl x]"
  by (auto simp: unix_Linkat_def split: prod.splits)

lemma unix_Renameat_tr:
  "unix_Renameat K d p d' p' w = (r, w') \<Longrightarrow> \<exists>x. snd w' = snd w @ [SysRenameat d p d' p' x]"
  by (auto simp: unix_Renameat_def split: prod.splits)

lemma File_Sync_tr:
  "File_Sync K fd n w = (r, w') \<Longrightarrow> \<exists>x. snd w' = snd w @ [SysFsync fd x]"
  by (auto simp: File_Sync_def split: prod.splits option.splits dest: unix_Fsync_tr)

lemma File_Close_tr:
  "File_Close K fd n w = (r, w') \<Longrightarrow> \<exists>x. snd w' = snd w @ [SysClose fd x]"
  by (auto simp: File_Close_def split: prod.splits option.splits dest: unix_Close_tr)

lemmas sys_tr = unix_Openat2_tr unix_Open_tr unix_Fstat_tr unix_Close_tr unix_Openat_tr
  unix_Write_tr unix_Fsync_tr unix_Fchown_tr unix_Unlinkat_tr unix_Linkat_tr unix_Renameat_tr
  File_Sync_tr File_Close_tr

lemma openDirSecure_tr:
  "openDirSecure K p ncd w = (r, w') \<Longrightarrow>
   \<exists>x. snd w' = snd w @ [SysOpenat2 p (O_PATH OR O_DIRECTORY) (resolveFlags ncd) x] \<or>
       (\<exists>y. snd w' = snd w @ [SysOpenat2 p (O_PATH OR O_DIRECTORY) (resolveFlags ncd) x,
                               SysOpen p (O_RDONLY OR O_DIRECTORY OR O_NOFOLLOW) 0 y])"
  by (auto simp: openDirSecure_def split: prod.splits sum.splits if_splits
      dest!: unix_Openat2_tr unix_Open_tr)

lemma poll_FD_Write_ext:
  "poll_FD_Write K fd p nn w = (r, w') \<Longrightarrow> (\<And>b x. P (SysWrite fd b x)) \<Longrightarrow> extends_by P w w'"
proof (induction K fd p nn w rule: poll_FD_Write.induct)
  case (1 K fd p nn w)
  obtain a w1 where uw: "unix_Write K fd (drop nn p) w = (a, w1)"
    by (metis surj_pair)
  then have s: "extends_by P w w1"
    using 1(3) by (auto simp: extends_by_def dest!: unix_Write_tr)
  note unf = 1(2) [unfolded poll_FD_Write.simps [of K fd p nn w]]
  show ?case
  proof (cases a)
    case (Inl err)
    with uw unf s show ?thesis by simp
  next
    case (Inr n)
    show ?thesis
    proof (cases "(if n > 0 then nn + n else nn) = length p \<or> n = 0")
      case True
      with uw Inr unf s show ?thesis
        by (auto simp: Let_def split: if_splits)
    next
      case False
      with uw Inr unf have
        "poll_FD_Write K fd p (if n > 0 then nn + n else nn) w1 = (r, w')"
        by (auto simp: Let_def split: if_splits)
      with 1(1) [OF uw [symmetric] Inr refl] False 1(3) have "extends_by P w1 w'"
        by auto
      with s show ?thesis by (rule extends_by_trans)
    qed
  qed
qed

lemma File_Write_ext:
  "File_Write K fd n b w = (r, w') \<Longrightarrow> (\<And>b x. P (SysWrite fd b x)) \<Longrightarrow> extends_by P w w'"
proof -
  assume a: "File_Write K fd n b w = (r, w')" and p: "\<And>b x. P (SysWrite fd b x)"
  obtain x w1 where pw: "poll_FD_Write K fd b 0 w = (x, w1)"
    by (metis surj_pair)
  with a have "w' = w1"
    by (auto simp: File_Write_def Let_def split: prod.splits)
  with poll_FD_Write_ext [OF pw, of P] p show ?thesis by simp
qed

lemma ultra_after_tmp_ext:
  "ultra_after_tmp K dirPath baseName data opts dirFd tmpFd w = (r, w') \<Longrightarrow>
   extends_by (ultra_event dirPath baseName) w w'"
  unfolding ultra_after_tmp_def extends_by_def
  by (auto simp: ultra_event_def
      split: prod.splits sum.splits option.splits if_splits dest!: sys_tr)

lemma ultra_after_dir_ext:
  "ultra_after_dir K dirPath baseName data opts dirFd w = (r, w') \<Longrightarrow>
   extends_by (ultra_event dirPath baseName) w w'"
  unfolding ultra_after_dir_def
  by (auto simp: ultra_event_def extends_by_def split: prod.splits sum.splits
      dest!: sys_tr ultra_after_tmp_ext [unfolded extends_by_def])

lemma ultra_after_verify_ext:
  "ultra_after_verify K dirPath baseName data opts w = (r, w') \<Longrightarrow>
   extends_by (ultra_event dirPath baseName) w w'"
  unfolding ultra_after_verify_def
  by (auto simp: ultra_event_def extends_by_def split: prod.splits sum.splits
      dest!: sys_tr openDirSecure_tr ultra_after_dir_ext [unfolded extends_by_def])

lemma paranoid_after_tmp_ext:
  "paranoid_after_tmp K dirPath baseName tmpName data opts dirFd tmpFd w = (r, w') \<Longrightarrow>
   extends_by (paranoid_event dirPath baseName tmpName) w w'"
  unfolding paranoid_after_tmp_def
  by (auto simp: paranoid_event_def extends_by_def
      split: prod.splits sum.splits option.splits if_splits
      dest!: sys_tr File_Write_ext [where P = "paranoid_event dirPath baseName tmpName", unfolded extends_by_def])

lemma paranoid_after_dir_ext:
  "paranoid_after_dir K dirPath baseName tmpName data opts dirFd w = (r, w') \<Longrightarrow>
   extends_by (paranoid_event dirPath baseName tmpName) w w'"
  unfolding paranoid_after_dir_def
  by (auto simp: paranoid_event_def extends_by_def split: prod.splits sum.splits
      dest!: sys_tr paranoid_after_tmp_ext [unfolded extends_by_def])

lemma paranoid_after_verify_ext:
  "paranoid_after_verify K dirPath baseName tmpName data opts w = (r, w') \<Longrightarrow>
   extends_by (paranoid_event dirPath baseName tmpName) w w'"
  unfolding paranoid_after_verify_def
  by (auto simp: paranoid_event_def extends_by_def split: prod.splits sum.splits
      dest!: sys_tr openDirSecure_tr paranoid_after_dir_ext [unfolded extends_by_def])

lemma verifyDirectorySecure_ext:
  assumes "verifyDirectorySecure K current verifyAll w = Some y"
  shows "extends_by verify_event w (snd y)"
proof (rule verifyDirectorySecure.raw_induct
    [where P = "\<lambda>K c va w y. extends_by verify_event w (snd y)", OF _ assms], goal_cases)
  case (1 vds K current verifyAll w y)
  from 1(2) show ?case
    by (auto simp: verify_event_def extends_by_def resolveFlags_def
        RESOLVE_NO_SYMLINKS_def RESOLVE_NO_MAGICLINKS_def RESOLVE_NO_XDEV_def
        split: prod.splits sum.splits if_splits
        dest!: sys_tr openDirSecure_tr 1(1) [unfolded extends_by_def])
qed

section \<open>The dispatcher\<close>

lemma errors_As_Is: "errors_As_Errno e = Some t \<longleftrightarrow> errors_Is_Errno e t"
  by (induction e) auto

lemma fallbackNeeded_iff:
  "fallbackNeeded err \<longleftrightarrow>
     (\<exists>e. err = Some e \<and> (errors_Is_Errno e EOPNOTSUPP \<or> errors_Is_Errno e EINVAL
                          \<or> errors_Is_Errno e ENOTDIR \<or> errors_Is_Errno e EPERM))"
  by (auto simp: fallbackNeeded_def errors_As_Is [symmetric] split: option.splits)

text \<open>
  C1. The dispatcher runs the anonymous-temp strategy first. When that attempt returns an
  error that is, or wraps, one of EOPNOTSUPP, EINVAL, ENOTDIR and EPERM, the result of the
  call is the result of the named-temp strategy, run once from the start on the world the
  first attempt left. Every other outcome of the first attempt, success or error, is
  returned as it is; a first attempt that never returns gives a call that never returns.
\<close>

theorem C1_dispatcher:
  "(ultraParanoidWrite K path data opts w = None \<longrightarrow>
      secureAtomicWriteInternal K path data opts w = None) \<and>
   (\<forall>err w1. ultraParanoidWrite K path data opts w = Some (err, w1) \<longrightarrow>
      secureAtomicWriteInternal K path data opts w =
        (if \<exists>e. err = Some e \<and>
                (errors_Is_Errno e EOPNOTSUPP \<or> errors_Is_Errno e EINVAL \<or>
                 errors_Is_Errno e ENOTDIR \<or> errors_Is_Errno e EPERM)
         then paranoidAtomicWrite K path data opts w1
         else Some (err, w1)))"
  unfolding fallbackNeeded_iff [symmetric]
  by (simp add: secureAtomicWriteInternal_def)

theorem C1_dispatcher_witness:
  "secureAtomicWriteInternal fs_kernel ''/etc/app.conf'' [1, 2, 3] opts0 (fs_no_tmpfile, []) =
     paranoidAtomicWrite fs_kernel ''/etc/app.conf'' [1, 2, 3] opts0
       (snd (the (ultraParanoidWrite fs_kernel ''/etc/app.conf'' [1, 2, 3] opts0 (fs_no_tmpfile, []))))
   \<and> result_of (secureAtomicWriteInternal fs_kernel ''/etc/app.conf'' [1, 2, 3] opts0 (fs_full, [])) =
       Some (Some (ErrorfW ''openat O_TMPFILE: %w'' [] (Errno ENOSPC)))"
proof -
  let ?u1 = "ultraParanoidWrite fs_kernel ''/etc/app.conf'' [1, 2, 3] opts0 (fs_no_tmpfile, [])"
  let ?u2 = "ultraParanoidWrite fs_kernel ''/etc/app.conf'' [1, 2, 3] opts0 (fs_full, [])"
  have "result_of ?u1 = Some (Some (ErrorfW ''openat O_TMPFILE: %w'' [] (Errno EOPNOTSUPP)))"
    by (simp add: write_defs unix_defs fs_defs const_defs path_defs world_defs Let_def)
  then obtain w1 where u1:
    "?u1 = Some (Some (ErrorfW ''openat O_TMPFILE: %w'' [] (Errno EOPNOTSUPP)), w1)"
    by (auto simp: result_of_def)
  have "result_of ?u2 = Some (Some (ErrorfW ''openat O_TMPFILE: %w'' [] (Errno ENOSPC)))"
    by (simp add: write_defs unix_defs fs_defs const_defs path_defs world_defs Let_def)
  then obtain w2 where u2:
    "?u2 = Some (Some (ErrorfW ''openat O_TMPFILE: %w'' [] (Errno ENOSPC)), w2)"
    by (auto simp: result_of_def)
  from C1_dispatcher [of fs_kernel "''/etc/app.conf''" "[1, 2, 3]" opts0 "(fs_no_tmpfile, [])"] u1
  have a: "secureAtomicWriteInternal fs_kernel ''/etc/app.conf'' [1, 2, 3] opts0 (fs_no_tmpfile, []) =
     paranoidAtomicWrite fs_kernel ''/etc/app.conf'' [1, 2, 3] opts0 w1"
    by (cases w1) (simp add: const_defs)
  from C1_dispatcher [of fs_kernel "''/etc/app.conf''" "[1, 2, 3]" opts0 "(fs_full, [])"] u2
  have b: "secureAtomicWriteInternal fs_kernel ''/etc/app.conf'' [1, 2, 3] opts0 (fs_full, []) =
     Some (Some (ErrorfW ''openat O_TMPFILE: %w'' [] (Errno ENOSPC)), w2)"
    by (cases w2) (simp add: const_defs)
  show ?thesis using a b u1 by (simp add: result_of_def)
qed

section \<open>The directory opener and the entry points\<close>

text \<open>
  C7. The directory opener calls \<open>openat2\<close> first, with \<open>O_PATH|O_DIRECTORY\<close> and the
  resolve flags no-symlinks and no-magiclinks, plus no-cross-device exactly when
  confinement is asked for. A descriptor from that call is returned. An error other than
  ENOSYS is returned with no other call. On ENOSYS, and only then, the opener calls
  \<open>open\<close> with \<open>O_RDONLY|O_DIRECTORY|O_NOFOLLOW\<close> and returns what that call gives.
\<close>

theorem C7_openDirSecure:
  "k_openat2 K AT_FDCWD path (O_PATH OR O_DIRECTORY) (resolveFlags ncd) s = (r, s1) \<Longrightarrow>
   resolveFlags ncd =
     (if ncd then RESOLVE_NO_SYMLINKS OR RESOLVE_NO_MAGICLINKS OR RESOLVE_NO_XDEV
      else RESOLVE_NO_SYMLINKS OR RESOLVE_NO_MAGICLINKS) \<and>
   resolveFlags ncd AND RESOLVE_NO_SYMLINKS = RESOLVE_NO_SYMLINKS \<and>
   resolveFlags ncd AND RESOLVE_NO_MAGICLINKS = RESOLVE_NO_MAGICLINKS \<and>
   (resolveFlags ncd AND RESOLVE_NO_XDEV = RESOLVE_NO_XDEV) = ncd \<and>
   openDirSecure K path ncd (s, tr) =
     (let ev = SysOpenat2 path (O_PATH OR O_DIRECTORY) (resolveFlags ncd) r
      in case r of
           Inr fd \<Rightarrow> (Inr fd, (s1, tr @ [ev]))
         | Inl e \<Rightarrow>
             if e = ENOSYS then
               (case k_open K path (O_RDONLY OR O_DIRECTORY OR O_NOFOLLOW) 0 s1 of
                  (r2, s2) \<Rightarrow>
                    (map_sum Errno id r2,
                     (s2, tr @ [ev, SysOpen path (O_RDONLY OR O_DIRECTORY OR O_NOFOLLOW) 0 r2])))
             else (Inl (Errno e), (s1, tr @ [ev])))"
  by (cases ncd)
     (auto simp: openDirSecure_def unix_Openat2_def unix_Open_def resolveFlags_def Let_def
        RESOLVE_NO_SYMLINKS_def RESOLVE_NO_MAGICLINKS_def RESOLVE_NO_XDEV_def
        split: sum.splits prod.splits)

theorem C7_openDirSecure_witness:
  "openDirSecure fs_kernel ''/etc'' True (fs_old, []) =
     (Inr 3,
      (fs_old\<lparr>fdtab := [3 \<mapsto> FdDir ''/etc''], next_fd := 4\<rparr>,
       [SysOpenat2 ''/etc'' 0x210000 7 (Inl 38), SysOpen ''/etc'' 0x30000 0 (Inr 3)]))"
proof -
  have h: "k_openat2 fs_kernel AT_FDCWD ''/etc'' (O_PATH OR O_DIRECTORY) (resolveFlags True) fs_old =
      (Inl ENOSYS, fs_old)"
    by (simp add: fs_defs world_defs)
  show ?thesis
    using C7_openDirSecure [OF h, of "[]"]
    by (simp add: fs_defs world_defs const_defs resolveFlags_def)
qed

text \<open>
  C8. \<open>SecureAtomicWriteRoot\<close> returns what \<open>SecureAtomicWrite\<close> returns on every input:
  both call the internal write with the options sync on, verification of the ancestors
  off, mount confinement on and both owner sentinels. \<open>SecureAtomicWriteRootStrict\<close>
  calls the same internal write with the same options except that the verify-all flag
  is on.
\<close>

theorem C8_entry_points:
  "SecureAtomicWriteRoot K path data perm w = SecureAtomicWrite K path data perm w \<and>
   SecureAtomicWrite K path data perm w =
     secureAtomicWriteInternal K path data
       \<lparr>Perm = perm, UID = - 1, GID = - 1, Sync = True, VerifyAll = False, NoCrossDevice = True\<rparr> w \<and>
   SecureAtomicWriteRootStrict K path data perm w =
     secureAtomicWriteInternal K path data
       (\<lparr>Perm = perm, UID = - 1, GID = - 1, Sync = True, VerifyAll = False, NoCrossDevice = True\<rparr>
          \<lparr>VerifyAll := True\<rparr>) w"
  by (simp add: entry_defs)


theorem C8_entry_points_witness:
  "SecureAtomicWriteRoot fs_kernel ''/etc/app.conf'' [1, 2, 3] 0x180 (fs0, []) =
     SecureAtomicWrite fs_kernel ''/etc/app.conf'' [1, 2, 3] 0x180 (fs0, []) \<and>
   SecureAtomicWrite fs_kernel ''/etc/app.conf'' [1, 2, 3] 0x180 (fs0, []) =
     secureAtomicWriteInternal fs_kernel ''/etc/app.conf'' [1, 2, 3] opts0 (fs0, []) \<and>
   SecureAtomicWriteRootStrict fs_kernel ''/etc/app.conf'' [1, 2, 3] 0x180 (fs0, []) =
     secureAtomicWriteInternal fs_kernel ''/etc/app.conf'' [1, 2, 3]
       (opts0\<lparr>VerifyAll := True\<rparr>) (fs0, [])"
  using C8_entry_points [of fs_kernel "''/etc/app.conf''" "[1, 2, 3]" "0x180" "(fs0, [])"]
  by (simp add: opts0_def)

section \<open>The ancestor verifier\<close>

lemma verify_open_fails:
  "k_openat2 K AT_FDCWD current (O_PATH OR O_DIRECTORY) (resolveFlags True) s = (Inl e, s') \<Longrightarrow>
   e \<noteq> ENOSYS \<Longrightarrow>
   verifyDirectorySecure K current verifyAll (s, tr) =
     Some (Some (ErrorfW ''open directory %s: %w'' [ArgS current] (Errno e)),
           (s', tr @ [SysOpenat2 current (O_PATH OR O_DIRECTORY) (resolveFlags True) (Inl e)]))"
  by (subst verifyDirectorySecure.simps)
     (simp add: openDirSecure_def unix_Openat2_def)

text \<open>
  C9. The verifier opens every directory it examines with the no-cross-device resolve
  flag set: each \<open>openat2\<close> it issues carries \<open>RESOLVE_NO_XDEV\<close>, and the function has
  no parameter for the caller's \<open>NoCrossDevice\<close> option. When \<open>openat2\<close> exists and
  refuses a directory under that flag, the verification of that directory fails with the
  kernel's errno wrapped; a call with \<open>VerifyAll\<close> on whose parent directory is refused
  with EXDEV returns that error whatever its \<open>NoCrossDevice\<close> option is.
\<close>

theorem C9_verifier_confined:
  "(\<forall>r w'. verifyDirectorySecure K current verifyAll w = Some (r, w') \<longrightarrow>
      extends_by verify_event w w') \<and>
   (\<forall>s tr e s'.
      w = (s, tr) \<and> e \<noteq> ENOSYS \<and>
      k_openat2 K AT_FDCWD current (O_PATH OR O_DIRECTORY)
        (RESOLVE_NO_SYMLINKS OR RESOLVE_NO_MAGICLINKS OR RESOLVE_NO_XDEV) s = (Inl e, s') \<longrightarrow>
      verifyDirectorySecure K current verifyAll w =
        Some (Some (ErrorfW ''open directory %s: %w'' [ArgS current] (Errno e)),
              (s', tr @ [SysOpenat2 current (O_PATH OR O_DIRECTORY)
                           (RESOLVE_NO_SYMLINKS OR RESOLVE_NO_MAGICLINKS OR RESOLVE_NO_XDEV)
                           (Inl e)]))) \<and>
   (\<forall>s tr s'.
      w = (s, tr) \<and> VerifyAll opts \<and>
      k_openat2 K AT_FDCWD (filepath_Dir path) (O_PATH OR O_DIRECTORY)
        (RESOLVE_NO_SYMLINKS OR RESOLVE_NO_MAGICLINKS OR RESOLVE_NO_XDEV) s = (Inl EXDEV, s') \<longrightarrow>
      secureAtomicWriteInternal K path data opts w =
        Some (Some (ErrorfW ''open directory %s: %w'' [ArgS (filepath_Dir path)] (Errno EXDEV)),
              (s', tr @ [SysOpenat2 (filepath_Dir path) (O_PATH OR O_DIRECTORY)
                           (RESOLVE_NO_SYMLINKS OR RESOLVE_NO_MAGICLINKS OR RESOLVE_NO_XDEV)
                           (Inl EXDEV)])))"
proof -
  have rf: "resolveFlags True = RESOLVE_NO_SYMLINKS OR RESOLVE_NO_MAGICLINKS OR RESOLVE_NO_XDEV"
    by (simp add: resolveFlags_def ac_simps)
  have a: "\<forall>r w'. verifyDirectorySecure K current verifyAll w = Some (r, w') \<longrightarrow>
      extends_by verify_event w w'"
    using verifyDirectorySecure_ext [of K current verifyAll w] by auto
  have b: "\<And>c va s tr e s'. e \<noteq> ENOSYS \<Longrightarrow>
      k_openat2 K AT_FDCWD c (O_PATH OR O_DIRECTORY)
        (RESOLVE_NO_SYMLINKS OR RESOLVE_NO_MAGICLINKS OR RESOLVE_NO_XDEV) s = (Inl e, s') \<Longrightarrow>
      verifyDirectorySecure K c va (s, tr) =
        Some (Some (ErrorfW ''open directory %s: %w'' [ArgS c] (Errno e)),
              (s', tr @ [SysOpenat2 c (O_PATH OR O_DIRECTORY)
                           (RESOLVE_NO_SYMLINKS OR RESOLVE_NO_MAGICLINKS OR RESOLVE_NO_XDEV)
                           (Inl e)]))"
    using verify_open_fails [unfolded rf] by metis
  have c: "\<And>s tr s'. VerifyAll opts \<Longrightarrow>
      k_openat2 K AT_FDCWD (filepath_Dir path) (O_PATH OR O_DIRECTORY)
        (RESOLVE_NO_SYMLINKS OR RESOLVE_NO_MAGICLINKS OR RESOLVE_NO_XDEV) s = (Inl EXDEV, s') \<Longrightarrow>
      secureAtomicWriteInternal K path data opts (s, tr) =
        Some (Some (ErrorfW ''open directory %s: %w'' [ArgS (filepath_Dir path)] (Errno EXDEV)),
              (s', tr @ [SysOpenat2 (filepath_Dir path) (O_PATH OR O_DIRECTORY)
                           (RESOLVE_NO_SYMLINKS OR RESOLVE_NO_MAGICLINKS OR RESOLVE_NO_XDEV)
                           (Inl EXDEV)]))"
    by (simp add: secureAtomicWriteInternal_def ultraParanoidWrite_def Let_def
        b [of EXDEV] fallbackNeeded_def const_defs)
  from a b c show ?thesis by blast
qed


theorem C9_verifier_confined_witness:
  "extends_by verify_event (fs0, [])
     (snd (the (verifyDirectorySecure fs_kernel ''/etc'' True (fs0, [])))) \<and>
   result_of (verifyDirectorySecure fs_kernel ''/data'' False (fs0, [])) =
     Some (Some (ErrorfW ''open directory %s: %w'' [ArgS ''/data''] (Errno EXDEV))) \<and>
   result_of (secureAtomicWriteInternal fs_kernel ''/data/f'' [1, 2, 3]
                (opts0\<lparr>VerifyAll := True, NoCrossDevice := False\<rparr>) (fs0, [])) =
     Some (Some (ErrorfW ''open directory %s: %w'' [ArgS ''/data''] (Errno EXDEV)))"
proof -
  have "result_of (verifyDirectorySecure fs_kernel ''/etc'' True (fs0, [])) = Some None"
    apply (subst verifyDirectorySecure.simps)
    apply (simp add: write_defs unix_defs fs_defs const_defs path_defs world_defs Let_def)
    apply (subst verifyDirectorySecure.simps)
    apply (simp add: write_defs unix_defs fs_defs const_defs path_defs world_defs Let_def)
    done
  then obtain w' where v: "verifyDirectorySecure fs_kernel ''/etc'' True (fs0, []) = Some (None, w')"
    by (auto simp: result_of_def)
  have h: "k_openat2 fs_kernel AT_FDCWD ''/data'' (O_PATH OR O_DIRECTORY)
      (RESOLVE_NO_SYMLINKS OR RESOLVE_NO_MAGICLINKS OR RESOLVE_NO_XDEV) fs0 = (Inl EXDEV, fs0)"
    by (simp add: fs_defs const_defs world_defs)
  have d: "filepath_Dir ''/data/f'' = ''/data''"
    by (simp add: path_defs)
  have x: "EXDEV \<noteq> ENOSYS"
    by (simp add: const_defs)
  note t1 = C9_verifier_confined [of fs_kernel "''/etc''" True "(fs0, [])"]
  note t2 = C9_verifier_confined [of fs_kernel "''/data''" False "(fs0, [])"
      "opts0\<lparr>VerifyAll := True, NoCrossDevice := False\<rparr>" "''/data/f''" "[1, 2, 3]"]
  from t1 v have a: "extends_by verify_event (fs0, []) w'"
    by blast
  from t2 h x have b: "verifyDirectorySecure fs_kernel ''/data'' False (fs0, []) =
      Some (Some (ErrorfW ''open directory %s: %w'' [ArgS ''/data''] (Errno EXDEV)),
            (fs0, [] @ [SysOpenat2 ''/data'' (O_PATH OR O_DIRECTORY)
               (RESOLVE_NO_SYMLINKS OR RESOLVE_NO_MAGICLINKS OR RESOLVE_NO_XDEV) (Inl EXDEV)]))"
    by blast
  from t2 h have c: "secureAtomicWriteInternal fs_kernel ''/data/f'' [1, 2, 3]
                (opts0\<lparr>VerifyAll := True, NoCrossDevice := False\<rparr>) (fs0, []) =
      Some (Some (ErrorfW ''open directory %s: %w'' [ArgS ''/data''] (Errno EXDEV)),
            (fs0, [] @ [SysOpenat2 ''/data'' (O_PATH OR O_DIRECTORY)
               (RESOLVE_NO_SYMLINKS OR RESOLVE_NO_MAGICLINKS OR RESOLVE_NO_XDEV) (Inl EXDEV)]))"
    unfolding d by (simp add: opts0_def)
  from a b c v show ?thesis by (simp add: result_of_def)
qed

lemma ultra_after_tmp_no_verify:
  "ultra_after_tmp K d b data (opts\<lparr>VerifyAll := False\<rparr>) dirFd tmpFd w =
     ultra_after_tmp K d b data opts dirFd tmpFd w"
  by (simp add: ultra_after_tmp_def
      cong: prod.case_cong sum.case_cong option.case_cong if_cong)

lemma ultra_no_verify:
  "ultra_after_verify K d b data (opts\<lparr>VerifyAll := False\<rparr>) w = ultra_after_verify K d b data opts w"
  by (simp add: ultra_after_verify_def ultra_after_dir_def ultra_after_tmp_no_verify
      cong: prod.case_cong sum.case_cong)

lemma paranoid_after_tmp_no_verify:
  "paranoid_after_tmp K d b t data (opts\<lparr>VerifyAll := False\<rparr>) dirFd tmpFd w =
     paranoid_after_tmp K d b t data opts dirFd tmpFd w"
  by (simp add: paranoid_after_tmp_def
      cong: prod.case_cong sum.case_cong option.case_cong if_cong)

lemma paranoid_no_verify:
  "paranoid_after_verify K d b t data (opts\<lparr>VerifyAll := False\<rparr>) w =
     paranoid_after_verify K d b t data opts w"
  by (simp add: paranoid_after_verify_def paranoid_after_dir_def paranoid_after_tmp_no_verify
      cong: prod.case_cong sum.case_cong)

lemma ultra_event_no_fstat: "ultra_event d b e \<Longrightarrow> \<not> is_fstat e"
  by (auto simp: ultra_event_def is_fstat_def split: event.splits)

lemma paranoid_event_no_fstat: "paranoid_event d b t e \<Longrightarrow> \<not> is_fstat e"
  by (auto simp: paranoid_event_def is_fstat_def split: event.splits)

lemma no_verify_no_fstat:
  assumes "\<not> VerifyAll opts"
  shows "\<exists>r w'. secureAtomicWriteInternal K path data opts w = Some (r, w') \<and>
           extends_by (\<lambda>e. \<not> is_fstat e) w w'"
proof -
  let ?d = "filepath_Dir path" and ?b = "filepath_Base path"
  obtain r1 w1 where u: "ultra_after_verify K ?d ?b data opts w = (r1, w1)"
    by (metis surj_pair)
  have e1: "extends_by (\<lambda>e. \<not> is_fstat e) w w1"
    using ultra_after_verify_ext [OF u] ultra_event_no_fstat by (rule extends_by_mono)
  obtain r2 w2 where p:
    "paranoid_after_verify K ?d ?b (''.'' @ ?b @ ''.tmp'') data opts w1 = (r2, w2)"
    by (metis surj_pair)
  have e2: "extends_by (\<lambda>e. \<not> is_fstat e) w1 w2"
    using paranoid_after_verify_ext [OF p] paranoid_event_no_fstat by (rule extends_by_mono)
  have e3: "extends_by (\<lambda>e. \<not> is_fstat e) w w2"
    using e1 e2 by (rule extends_by_trans)
  show ?thesis
    using assms u p e1 e3
    by (cases w1; cases w2)
       (auto simp: secureAtomicWriteInternal_def ultraParanoidWrite_def paranoidAtomicWrite_def
          Let_def)
qed

lemma verify_all_step:
  assumes "current \<noteq> ''/''" and "verifyDirectorySecure K current True w = Some (None, w')"
  shows "\<exists>w1. verifyDirectorySecure K current False w = Some (None, w1) \<and>
           verifyDirectorySecure K (filepath_Dir current) True w1 = Some (None, w')"
  using assms
  by (simp only: verifyDirectorySecure.simps [of K current True w]
        verifyDirectorySecure.simps [of K current False w])
     (auto split: prod.splits sum.splits if_splits)

text \<open>
  C2, in the form that holds of the code. With \<open>VerifyAll\<close> off no directory is verified: the call returns
  without having issued a single \<open>fstat\<close>, so the owner and the mode of the parent
  directory are never read. With \<open>VerifyAll\<close> on, each strategy first runs the verifier
  on the parent directory with verify-all on, returns its error when it fails, and
  otherwise goes on as the same call with \<open>VerifyAll\<close> off does. A verify-all walk that
  succeeds from a directory other than \<open>/\<close> is the check of that one directory followed
  by a walk that succeeds from its textual parent.
\<close>

theorem C2_verification_only_when_asked:
  "(\<not> VerifyAll opts \<longrightarrow>
      (\<exists>r w'. secureAtomicWriteInternal K path data opts w = Some (r, w') \<and>
               extends_by (\<lambda>e. \<not> is_fstat e) w w')) \<and>
   (VerifyAll opts \<longrightarrow>
      ultraParanoidWrite K path data opts w =
        (case verifyDirectorySecure K (filepath_Dir path) True w of
           None \<Rightarrow> None
         | Some (Some err, w1) \<Rightarrow> Some (Some err, w1)
         | Some (None, w1) \<Rightarrow> ultraParanoidWrite K path data (opts\<lparr>VerifyAll := False\<rparr>) w1) \<and>
      paranoidAtomicWrite K path data opts w =
        (case verifyDirectorySecure K (filepath_Dir path) True w of
           None \<Rightarrow> None
         | Some (Some err, w1) \<Rightarrow> Some (Some err, w1)
         | Some (None, w1) \<Rightarrow> paranoidAtomicWrite K path data (opts\<lparr>VerifyAll := False\<rparr>) w1)) \<and>
   (\<forall>w'. current \<noteq> ''/'' \<and> verifyDirectorySecure K current True w = Some (None, w') \<longrightarrow>
      (\<exists>w1. verifyDirectorySecure K current False w = Some (None, w1) \<and>
            verifyDirectorySecure K (filepath_Dir current) True w1 = Some (None, w')))"
proof (intro conjI impI allI)
  assume "\<not> VerifyAll opts"
  then show "\<exists>r w'. secureAtomicWriteInternal K path data opts w = Some (r, w') \<and>
               extends_by (\<lambda>e. \<not> is_fstat e) w w'"
    by (rule no_verify_no_fstat)
next
  assume "VerifyAll opts"
  then show "ultraParanoidWrite K path data opts w =
        (case verifyDirectorySecure K (filepath_Dir path) True w of
           None \<Rightarrow> None
         | Some (Some err, w1) \<Rightarrow> Some (Some err, w1)
         | Some (None, w1) \<Rightarrow> ultraParanoidWrite K path data (opts\<lparr>VerifyAll := False\<rparr>) w1)"
    by (simp add: ultraParanoidWrite_def Let_def ultra_no_verify
        split: option.splits prod.splits)
next
  assume "VerifyAll opts"
  then show "paranoidAtomicWrite K path data opts w =
        (case verifyDirectorySecure K (filepath_Dir path) True w of
           None \<Rightarrow> None
         | Some (Some err, w1) \<Rightarrow> Some (Some err, w1)
         | Some (None, w1) \<Rightarrow> paranoidAtomicWrite K path data (opts\<lparr>VerifyAll := False\<rparr>) w1)"
    by (simp add: paranoidAtomicWrite_def Let_def paranoid_no_verify
        split: option.splits prod.splits)
next
  fix w'
  assume "current \<noteq> ''/'' \<and> verifyDirectorySecure K current True w = Some (None, w')"
  then show "\<exists>w1. verifyDirectorySecure K current False w = Some (None, w1) \<and>
            verifyDirectorySecure K (filepath_Dir current) True w1 = Some (None, w')"
    using verify_all_step by blast
qed

theorem C2_verification_only_when_asked_witness:
  "extends_by (\<lambda>e. \<not> is_fstat e) (fs0, [])
     (snd (the (secureAtomicWriteInternal fs_kernel ''/home/u/notes'' [1, 2, 3] opts0 (fs0, [])))) \<and>
   result_of (ultraParanoidWrite fs_kernel ''/home/u/notes'' [1, 2, 3] (opts0\<lparr>VerifyAll := True\<rparr>) (fs0, [])) =
     Some (Some (Errorf ''directory %s not owned by root (uid=%d)'' [ArgS ''/home/u'', ArgU 1000])) \<and>
   result_of (verifyDirectorySecure fs_kernel ''/'' True
     (snd (the (verifyDirectorySecure fs_kernel ''/etc'' False (fs0, []))))) = Some None"
proof -
  note t1 = C2_verification_only_when_asked [where opts = opts0 and K = fs_kernel
      and path = "''/home/u/notes''" and data = "[1, 2, 3]" and w = "(fs0, [])"
      and current = "''/etc''"]
  note t2 = C2_verification_only_when_asked [where opts = "opts0\<lparr>VerifyAll := True\<rparr>"
      and K = fs_kernel and path = "''/home/u/notes''" and data = "[1, 2, 3]"
      and w = "(fs0, [])" and current = "''/etc''"]
  have n: "\<not> VerifyAll opts0"
    by (simp add: opts0_def)
  have y: "VerifyAll (opts0\<lparr>VerifyAll := True\<rparr>)"
    by simp
  have d: "filepath_Dir ''/home/u/notes'' = ''/home/u''" "filepath_Dir ''/etc'' = ''/''"
    by (simp_all add: path_defs)
  have v: "result_of (verifyDirectorySecure fs_kernel ''/home/u'' True (fs0, [])) =
      Some (Some (Errorf ''directory %s not owned by root (uid=%d)'' [ArgS ''/home/u'', ArgU 1000]))"
    by (subst verifyDirectorySecure.simps) (simp add: eval_defs)
  have "result_of (verifyDirectorySecure fs_kernel ''/etc'' True (fs0, [])) = Some None"
    apply (subst verifyDirectorySecure.simps)
    apply (simp add: eval_defs)
    apply (subst verifyDirectorySecure.simps)
    apply (simp add: eval_defs)
    done
  then obtain w' where e: "verifyDirectorySecure fs_kernel ''/etc'' True (fs0, []) = Some (None, w')"
    by (auto simp: result_of_def)
  from t1 n obtain r w1 where
    "secureAtomicWriteInternal fs_kernel ''/home/u/notes'' [1, 2, 3] opts0 (fs0, []) = Some (r, w1)"
    "extends_by (\<lambda>e. \<not> is_fstat e) (fs0, []) w1"
    by blast
  then have a: "extends_by (\<lambda>e. \<not> is_fstat e) (fs0, [])
     (snd (the (secureAtomicWriteInternal fs_kernel ''/home/u/notes'' [1, 2, 3] opts0 (fs0, []))))"
    by simp
  from t2 y have "ultraParanoidWrite fs_kernel ''/home/u/notes'' [1, 2, 3] (opts0\<lparr>VerifyAll := True\<rparr>) (fs0, []) =
        (case verifyDirectorySecure fs_kernel (filepath_Dir ''/home/u/notes'') True (fs0, []) of
           None \<Rightarrow> None
         | Some (Some err, w1) \<Rightarrow> Some (Some err, w1)
         | Some (None, w1) \<Rightarrow> ultraParanoidWrite fs_kernel ''/home/u/notes'' [1, 2, 3]
              (opts0\<lparr>VerifyAll := True\<rparr>\<lparr>VerifyAll := False\<rparr>) w1)"
    by blast
  with v have b: "result_of (ultraParanoidWrite fs_kernel ''/home/u/notes'' [1, 2, 3] (opts0\<lparr>VerifyAll := True\<rparr>) (fs0, [])) =
     Some (Some (Errorf ''directory %s not owned by root (uid=%d)'' [ArgS ''/home/u'', ArgU 1000]))"
    unfolding d by (auto simp: result_of_def split: option.splits)
  from t2 e have "\<exists>w1. verifyDirectorySecure fs_kernel ''/etc'' False (fs0, []) = Some (None, w1) \<and>
            verifyDirectorySecure fs_kernel (filepath_Dir ''/etc'') True w1 = Some (None, w')"
    by auto
  then have c: "result_of (verifyDirectorySecure fs_kernel ''/'' True
     (snd (the (verifyDirectorySecure fs_kernel ''/etc'' False (fs0, []))))) = Some None"
    unfolding d by (auto simp: result_of_def)
  from a b c show ?thesis by simp
qed

text \<open>
  C2 as the specification states it fails: \<open>/home/u\<close> belongs to user 1000, so the check of the
  immediate parent rejects it, yet a write into it with \<open>VerifyAll\<close> off succeeds and
  never reads the owner of the directory.
\<close>

theorem C2_counterexample:
  "VerifyAll opts0 = False \<and>
   result_of (verifyDirectorySecure fs_kernel ''/home/u'' False (fs0, [])) =
     Some (Some (Errorf ''directory %s not owned by root (uid=%d)'' [ArgS ''/home/u'', ArgU 1000])) \<and>
   result_of (SecureAtomicWriteWithOptions fs_kernel ''/home/u/notes'' [1, 2, 3] opts0 (fs0, [])) =
     Some None \<and>
   file_after (SecureAtomicWriteWithOptions fs_kernel ''/home/u/notes'' [1, 2, 3] opts0 (fs0, []))
     ''/home/u'' ''notes'' = Some [1, 2, 3] \<and>
   filter is_fstat
     (trace_of (SecureAtomicWriteWithOptions fs_kernel ''/home/u/notes'' [1, 2, 3] opts0 (fs0, []))) = []"
  apply (subst verifyDirectorySecure.simps)
  apply (simp add: eval_defs is_fstat_def)
  done

section \<open>A leftover temporary file\<close>

lemma ultra_event_no_temp: "ultra_event d b e \<Longrightarrow> \<not> names_entry (''.'' @ b @ ''.tmp'') e"
  by (auto simp: ultra_event_def names_entry_def split: event.splits)

lemma verify_event_no_temp: "verify_event e \<Longrightarrow> \<not> names_entry n e"
  by (auto simp: verify_event_def names_entry_def split: event.splits)

lemma ultraParanoidWrite_no_temp:
  assumes "ultraParanoidWrite K path data opts w = Some (r, w')"
  shows "extends_by (\<lambda>e. \<not> names_entry (''.'' @ filepath_Base path @ ''.tmp'') e) w w'"
proof -
  let ?P = "\<lambda>e. \<not> names_entry (''.'' @ filepath_Base path @ ''.tmp'') e"
  let ?d = "filepath_Dir path" and ?b = "filepath_Base path"
  have u: "extends_by ?P w1 w2" if "ultra_after_verify K ?d ?b data opts w1 = (r2, w2)"
    for w1 r2 w2
    using ultra_after_verify_ext [OF that] ultra_event_no_temp by (rule extends_by_mono)
  show ?thesis
  proof (cases "VerifyAll opts")
    case False
    with assms u show ?thesis
      by (auto simp: ultraParanoidWrite_def Let_def)
  next
    case True
    show ?thesis
    proof (cases "verifyDirectorySecure K ?d True w")
      case None
      with True assms show ?thesis
        by (simp add: ultraParanoidWrite_def Let_def)
    next
      case (Some y)
      have v: "extends_by ?P w (snd y)"
        using verifyDirectorySecure_ext [OF Some] verify_event_no_temp by (rule extends_by_mono)
      show ?thesis
      proof (cases "fst y")
        case None
        with True Some assms have "ultra_after_verify K ?d ?b data opts (snd y) = (r, w')"
          by (cases y) (simp add: ultraParanoidWrite_def Let_def)
        from v u [OF this] show ?thesis by (rule extends_by_trans)
      next
        case (Some err)
        with True \<open>verifyDirectorySecure K ?d True w = Some y\<close> assms have "w' = snd y"
          by (cases y) (simp add: ultraParanoidWrite_def Let_def)
        with v show ?thesis by simp
      qed
    qed
  qed
qed

lemma paranoid_exclusive_create_fails:
  assumes "(if VerifyAll opts then verifyDirectorySecure K (filepath_Dir path) True w
            else Some (None, w)) = Some (None, wv)"
    and "openDirSecure K (filepath_Dir path) (NoCrossDevice opts) wv = (Inr dirFd, (s1, tr1))"
    and "k_openat K dirFd (''.'' @ filepath_Base path @ ''.tmp'')
           (O_WRONLY OR O_CREAT OR O_EXCL OR O_NOFOLLOW) (Perm opts) s1 = (Inl e, s2)"
    and "k_close K dirFd s2 = (c, s3)"
  shows "paranoidAtomicWrite K path data opts w =
     Some (Some (ErrorfW ''openat temp file: %w'' [] (Errno e)),
           (s3, tr1 @ [SysOpenat dirFd (''.'' @ filepath_Base path @ ''.tmp'')
                         (O_WRONLY OR O_CREAT OR O_EXCL OR O_NOFOLLOW) (Perm opts) (Inl e),
                       SysClose dirFd c]))"
  using assms
  by (simp add: paranoidAtomicWrite_def paranoid_after_verify_def paranoid_after_dir_def
      unix_Openat_def unix_Close_def Let_def split: if_splits)

text \<open>
  C3, in the form that holds of the code. Neither strategy removes or overwrites a file left at the temporary
  name \<open>.\<close> + base name + \<open>.tmp\<close>. The anonymous-temp strategy never names that entry
  in any system call, so it runs as if the file were not there and leaves it where it is.
  The named-temp strategy creates the name with \<open>O_CREAT|O_EXCL\<close>: when the kernel
  refuses the create with an errno (after the verification, when it is asked for, has
  passed and the directory is open), the call returns \<open>openat temp file\<close> wrapping that
  errno, and the only system call after the refused create closes the directory.
\<close>

theorem C3_stray_temp_file:
  "(\<forall>r w'. ultraParanoidWrite K path data opts w = Some (r, w') \<longrightarrow>
      extends_by (\<lambda>e. \<not> names_entry (''.'' @ filepath_Base path @ ''.tmp'') e) w w') \<and>
   (O_WRONLY OR O_CREAT OR O_EXCL OR O_NOFOLLOW) AND O_EXCL = O_EXCL \<and>
   (\<forall>wv dirFd s1 tr1 e s2 c s3.
      (if VerifyAll opts then verifyDirectorySecure K (filepath_Dir path) True w
       else Some (None, w)) = Some (None, wv) \<and>
      openDirSecure K (filepath_Dir path) (NoCrossDevice opts) wv = (Inr dirFd, (s1, tr1)) \<and>
      k_openat K dirFd (''.'' @ filepath_Base path @ ''.tmp'')
        (O_WRONLY OR O_CREAT OR O_EXCL OR O_NOFOLLOW) (Perm opts) s1 = (Inl e, s2) \<and>
      k_close K dirFd s2 = (c, s3) \<longrightarrow>
      paranoidAtomicWrite K path data opts w =
        Some (Some (ErrorfW ''openat temp file: %w'' [] (Errno e)),
              (s3, tr1 @ [SysOpenat dirFd (''.'' @ filepath_Base path @ ''.tmp'')
                            (O_WRONLY OR O_CREAT OR O_EXCL OR O_NOFOLLOW) (Perm opts) (Inl e),
                          SysClose dirFd c])))"
proof (intro conjI allI impI)
  fix r w'
  assume "ultraParanoidWrite K path data opts w = Some (r, w')"
  then show "extends_by (\<lambda>e. \<not> names_entry (''.'' @ filepath_Base path @ ''.tmp'') e) w w'"
    by (rule ultraParanoidWrite_no_temp)
next
  show "(O_WRONLY OR O_CREAT OR O_EXCL OR O_NOFOLLOW) AND O_EXCL = O_EXCL"
    by (simp add: const_defs)
next
  fix wv dirFd s1 tr1 e s2 c s3
  assume "(if VerifyAll opts then verifyDirectorySecure K (filepath_Dir path) True w
       else Some (None, w)) = Some (None, wv) \<and>
      openDirSecure K (filepath_Dir path) (NoCrossDevice opts) wv = (Inr dirFd, (s1, tr1)) \<and>
      k_openat K dirFd (''.'' @ filepath_Base path @ ''.tmp'')
        (O_WRONLY OR O_CREAT OR O_EXCL OR O_NOFOLLOW) (Perm opts) s1 = (Inl e, s2) \<and>
      k_close K dirFd s2 = (c, s3)"
  then show "paranoidAtomicWrite K path data opts w =
        Some (Some (ErrorfW ''openat temp file: %w'' [] (Errno e)),
              (s3, tr1 @ [SysOpenat dirFd (''.'' @ filepath_Base path @ ''.tmp'')
                            (O_WRONLY OR O_CREAT OR O_EXCL OR O_NOFOLLOW) (Perm opts) (Inl e),
                          SysClose dirFd c]))"
    by (intro paranoid_exclusive_create_fails) blast+
qed

text \<open>
  C3 as the specification states it fails on both paths. Without anonymous temporary files the write
  fails with EEXIST, the target is not created and the leftover keeps its two bytes;
  with them the write succeeds and the leftover is still there.
\<close>

theorem C3_counterexample:
  "result_of (SecureAtomicWriteWithOptions fs_kernel ''/etc/app.conf'' [1, 2, 3] opts0 (fs_stray, [])) =
     Some (Some (ErrorfW ''openat temp file: %w'' [] (Errno EEXIST))) \<and>
   file_after (SecureAtomicWriteWithOptions fs_kernel ''/etc/app.conf'' [1, 2, 3] opts0 (fs_stray, []))
     ''/etc'' ''app.conf'' = None \<and>
   file_after (SecureAtomicWriteWithOptions fs_kernel ''/etc/app.conf'' [1, 2, 3] opts0 (fs_stray, []))
     ''/etc'' ''.app.conf.tmp'' = Some [9, 9] \<and>
   result_of (SecureAtomicWriteWithOptions fs_kernel ''/etc/app.conf'' [1, 2, 3] opts0
                (fs_stray_tmpfile, [])) = Some None \<and>
   file_after (SecureAtomicWriteWithOptions fs_kernel ''/etc/app.conf'' [1, 2, 3] opts0
                (fs_stray_tmpfile, [])) ''/etc'' ''.app.conf.tmp'' = Some [9, 9]"
  by (simp add: eval_defs)

theorem C3_stray_temp_file_witness:
  "extends_by (\<lambda>e. \<not> names_entry ''.app.conf.tmp'' e) (fs_stray_tmpfile, [])
     (snd (the (ultraParanoidWrite fs_kernel ''/etc/app.conf'' [1, 2, 3] opts0 (fs_stray_tmpfile, [])))) \<and>
   paranoidAtomicWrite fs_kernel ''/etc/app.conf'' [1, 2, 3] opts0 (fs_stray, []) =
     Some (Some (ErrorfW ''openat temp file: %w'' [] (Errno EEXIST)),
           (fs_stray\<lparr>fdtab := [3 \<mapsto> FdDir ''/etc''](3 := None), next_fd := 4\<rparr>,
            [SysOpenat2 ''/etc'' 0x210000 7 (Inr 3),
             SysOpenat 3 ''.app.conf.tmp'' 0x200C1 0x180 (Inl 17),
             SysClose 3 None]))"
proof -
  note t1 = C3_stray_temp_file [where K = fs_kernel and path = "''/etc/app.conf''"
      and data = "[1, 2, 3]" and opts = opts0 and w = "(fs_stray_tmpfile, [])"]
  note t2 = C3_stray_temp_file [where K = fs_kernel and path = "''/etc/app.conf''"
      and data = "[1, 2, 3]" and opts = opts0 and w = "(fs_stray, [])"]
  have p: "filepath_Dir ''/etc/app.conf'' = ''/etc''" "filepath_Base ''/etc/app.conf'' = ''app.conf''"
    by (simp_all add: path_defs)
  have "result_of (ultraParanoidWrite fs_kernel ''/etc/app.conf'' [1, 2, 3] opts0 (fs_stray_tmpfile, [])) =
      Some None"
    by (simp add: eval_defs)
  then obtain w' where
    u: "ultraParanoidWrite fs_kernel ''/etc/app.conf'' [1, 2, 3] opts0 (fs_stray_tmpfile, []) =
      Some (None, w')"
    by (auto simp: result_of_def)
  from t1 u have a: "extends_by (\<lambda>e. \<not> names_entry ''.app.conf.tmp'' e) (fs_stray_tmpfile, []) w'"
    unfolding p by (cases w') auto
  have h: "(if VerifyAll opts0
       then verifyDirectorySecure fs_kernel (filepath_Dir ''/etc/app.conf'') True (fs_stray, [])
       else Some (None, (fs_stray, []))) = Some (None, (fs_stray, [])) \<and>
      openDirSecure fs_kernel (filepath_Dir ''/etc/app.conf'') (NoCrossDevice opts0) (fs_stray, []) =
        (Inr 3, (fs_stray\<lparr>fdtab := [3 \<mapsto> FdDir ''/etc''], next_fd := 4\<rparr>,
                 [SysOpenat2 ''/etc'' 0x210000 7 (Inr 3)])) \<and>
      k_openat fs_kernel 3 (''.'' @ filepath_Base ''/etc/app.conf'' @ ''.tmp'')
        (O_WRONLY OR O_CREAT OR O_EXCL OR O_NOFOLLOW) (Perm opts0)
        (fs_stray\<lparr>fdtab := [3 \<mapsto> FdDir ''/etc''], next_fd := 4\<rparr>) =
        (Inl EEXIST, fs_stray\<lparr>fdtab := [3 \<mapsto> FdDir ''/etc''], next_fd := 4\<rparr>) \<and>
      k_close fs_kernel 3 (fs_stray\<lparr>fdtab := [3 \<mapsto> FdDir ''/etc''], next_fd := 4\<rparr>) =
        (None, fs_stray\<lparr>fdtab := [3 \<mapsto> FdDir ''/etc''](3 := None), next_fd := 4\<rparr>)"
    by (simp add: eval_defs)
  from t2 h have b: "paranoidAtomicWrite fs_kernel ''/etc/app.conf'' [1, 2, 3] opts0 (fs_stray, []) =
     Some (Some (ErrorfW ''openat temp file: %w'' [] (Errno EEXIST)),
           (fs_stray\<lparr>fdtab := [3 \<mapsto> FdDir ''/etc''](3 := None), next_fd := 4\<rparr>,
            [SysOpenat2 ''/etc'' 0x210000 7 (Inr 3)] @
            [SysOpenat 3 (''.'' @ filepath_Base ''/etc/app.conf'' @ ''.tmp'')
               (O_WRONLY OR O_CREAT OR O_EXCL OR O_NOFOLLOW) (Perm opts0) (Inl EEXIST),
             SysClose 3 None]))"
    by blast
  from a b u show ?thesis
    unfolding p by (simp add: const_defs opts0_def)
qed

section \<open>Failures of the verifier and the fallback\<close>

lemma map_sum_Errno_Inl: "map_sum Errno id x = Inl err \<Longrightarrow> \<exists>e. err = Errno e"
  by (cases x) auto

lemma openDirSecure_error:
  "openDirSecure K p ncd w = (Inl err, w1) \<Longrightarrow> \<exists>e. err = Errno e"
  by (auto simp: openDirSecure_def unix_Openat2_def unix_Open_def
      split: prod.splits sum.splits if_splits dest: map_sum_Errno_Inl)

lemma unix_Fstat_error: "unix_Fstat K fd w = (Inl err, w1) \<Longrightarrow> \<exists>e. err = Errno e"
  by (auto simp: unix_Fstat_def split: prod.splits sum.splits dest: map_sum_Errno_Inl)

lemma verifier_error_forms:
  assumes "verifyDirectorySecure K current verifyAll w = Some y"
  shows "\<forall>err. fst y = Some err \<longrightarrow> verifier_rejection err \<or> (\<exists>e. verifier_io_error err e)"
proof (rule verifyDirectorySecure.raw_induct
    [where P = "\<lambda>K c va w y. \<forall>err. fst y = Some err \<longrightarrow>
                  verifier_rejection err \<or> (\<exists>e. verifier_io_error err e)", OF _ assms],
    goal_cases)
  case (1 vds K current verifyAll w y)
  from 1(2) show ?case
    by (auto simp: verifier_rejection_def verifier_io_error_def
        split: prod.splits sum.splits if_splits
        dest!: openDirSecure_error unix_Fstat_error 1(1))
qed

text \<open>
  C5, in the form that holds of the code. A failure of the verifier reaches the dispatcher as the error of the
  first attempt, and the dispatcher treats it as any other error. The two rejections
  (not owned by root, world-writable without the sticky bit) wrap no errno and are
  returned to the caller. A failure to open or to fstat a directory wraps the errno of
  the kernel: it is returned to the caller unless that errno is EOPNOTSUPP, EINVAL,
  ENOTDIR or EPERM, and then the dispatcher runs the named-temp strategy on the world
  the verifier left.
\<close>

theorem C5_verifier_failures:
  "VerifyAll opts \<Longrightarrow>
   verifyDirectorySecure K (filepath_Dir path) True w = Some (Some err, w1) \<Longrightarrow>
   verifier_rejection err \<and>
     secureAtomicWriteInternal K path data opts w = Some (Some err, w1) \<or>
   (\<exists>e. verifier_io_error err e \<and>
        secureAtomicWriteInternal K path data opts w =
          (if e = EOPNOTSUPP \<or> e = EINVAL \<or> e = ENOTDIR \<or> e = EPERM
           then paranoidAtomicWrite K path data opts w1
           else Some (Some err, w1)))"
proof -
  assume va: "VerifyAll opts"
    and v: "verifyDirectorySecure K (filepath_Dir path) True w = Some (Some err, w1)"
  from va v have u: "ultraParanoidWrite K path data opts w = Some (Some err, w1)"
    by (simp add: ultraParanoidWrite_def Let_def)
  from verifier_error_forms [OF v]
  have "verifier_rejection err \<or> (\<exists>e. verifier_io_error err e)"
    by simp
  then show ?thesis
  proof
    assume r: "verifier_rejection err"
    then have "\<not> fallbackNeeded (Some err)"
      by (auto simp: verifier_rejection_def fallbackNeeded_def)
    with u r show ?thesis
      by (simp add: secureAtomicWriteInternal_def)
  next
    assume "\<exists>e. verifier_io_error err e"
    then obtain e where e: "verifier_io_error err e" ..
    then have "fallbackNeeded (Some err) \<longleftrightarrow>
        (e = EOPNOTSUPP \<or> e = EINVAL \<or> e = ENOTDIR \<or> e = EPERM)"
      by (auto simp: verifier_io_error_def fallbackNeeded_def)
    with u have "secureAtomicWriteInternal K path data opts w =
          (if e = EOPNOTSUPP \<or> e = EINVAL \<or> e = ENOTDIR \<or> e = EPERM
           then paranoidAtomicWrite K path data opts w1
           else Some (Some err, w1))"
      by (simp add: secureAtomicWriteInternal_def)
    with e show ?thesis by blast
  qed
qed

text \<open>
  C5 as the specification states it fails: \<open>/etc/passwd\<close> is a regular file, the verifier cannot open
  it as a directory (ENOTDIR), and the dispatcher answers with a second attempt, which
  opens it again.
\<close>

theorem C5_counterexample:
  "result_of (verifyDirectorySecure fs_kernel ''/etc/passwd'' True (fs_file, [])) =
     Some (Some (ErrorfW ''open directory %s: %w'' [ArgS ''/etc/passwd''] (Errno ENOTDIR))) \<and>
   trace_of (ultraParanoidWrite fs_kernel ''/etc/passwd/x'' [1, 2, 3]
               (opts0\<lparr>VerifyAll := True\<rparr>) (fs_file, [])) =
     [SysOpenat2 ''/etc/passwd'' 0x210000 7 (Inl 20)] \<and>
   trace_of (secureAtomicWriteInternal fs_kernel ''/etc/passwd/x'' [1, 2, 3]
               (opts0\<lparr>VerifyAll := True\<rparr>) (fs_file, [])) =
     [SysOpenat2 ''/etc/passwd'' 0x210000 7 (Inl 20),
      SysOpenat2 ''/etc/passwd'' 0x210000 7 (Inl 20)] \<and>
   secureAtomicWriteInternal fs_kernel ''/etc/passwd/x'' [1, 2, 3]
     (opts0\<lparr>VerifyAll := True\<rparr>) (fs_file, []) =
   paranoidAtomicWrite fs_kernel ''/etc/passwd/x'' [1, 2, 3]
     (opts0\<lparr>VerifyAll := True\<rparr>) (fs_file, [SysOpenat2 ''/etc/passwd'' 0x210000 7 (Inl 20)])"
proof -
  have v: "verifyDirectorySecure fs_kernel ''/etc/passwd'' True (fs_file, tr) =
      Some (Some (ErrorfW ''open directory %s: %w'' [ArgS ''/etc/passwd''] (Errno 20)),
            (fs_file, tr @ [SysOpenat2 ''/etc/passwd'' 0x210000 7 (Inl 20)]))" for tr
    by (subst verifyDirectorySecure.simps) (simp add: eval_defs)
  have d: "filepath_Dir ''/etc/passwd/x'' = ''/etc/passwd''"
    by (simp add: path_defs)
  have f: "fallbackNeeded
      (Some (ErrorfW ''open directory %s: %w'' [ArgS ''/etc/passwd''] (Errno 20)))"
    by (simp add: fallbackNeeded_def const_defs)
  show ?thesis
    by (simp add: secureAtomicWriteInternal_def ultraParanoidWrite_def paranoidAtomicWrite_def
        Let_def d v f opts0_def result_of_def trace_of_def ENOTDIR_def)
qed

theorem C5_verifier_failures_witness:
  "secureAtomicWriteInternal fs_kernel ''/home/u/notes'' [1, 2, 3] (opts0\<lparr>VerifyAll := True\<rparr>)
     (fs0, []) =
   verifyDirectorySecure fs_kernel ''/home/u'' True (fs0, []) \<and>
   result_of (verifyDirectorySecure fs_kernel ''/home/u'' True (fs0, [])) =
     Some (Some (Errorf ''directory %s not owned by root (uid=%d)'' [ArgS ''/home/u'', ArgU 1000])) \<and>
   secureAtomicWriteInternal fs_kernel ''/etc/passwd/x'' [1, 2, 3] (opts0\<lparr>VerifyAll := True\<rparr>)
     (fs_file, []) =
   paranoidAtomicWrite fs_kernel ''/etc/passwd/x'' [1, 2, 3] (opts0\<lparr>VerifyAll := True\<rparr>)
     (fs_file, [SysOpenat2 ''/etc/passwd'' 0x210000 7 (Inl 20)])"
proof -
  let ?o = "opts0\<lparr>VerifyAll := True\<rparr>"
  let ?E = "Errorf ''directory %s not owned by root (uid=%d)'' [ArgS ''/home/u'', ArgU 1000]"
  let ?F = "ErrorfW ''open directory %s: %w'' [ArgS ''/etc/passwd''] (Errno 20)"
  have d: "filepath_Dir ''/home/u/notes'' = ''/home/u''"
    "filepath_Dir ''/etc/passwd/x'' = ''/etc/passwd''"
    by (simp_all add: path_defs)
  have y: "VerifyAll ?o"
    by simp
  have r: "result_of (verifyDirectorySecure fs_kernel ''/home/u'' True (fs0, [])) = Some (Some ?E)"
    by (subst verifyDirectorySecure.simps) (simp add: eval_defs)
  then obtain w1 where v1: "verifyDirectorySecure fs_kernel ''/home/u'' True (fs0, []) = Some (Some ?E, w1)"
    by (auto simp: result_of_def)
  have v2: "verifyDirectorySecure fs_kernel ''/etc/passwd'' True (fs_file, []) =
      Some (Some ?F, (fs_file, [SysOpenat2 ''/etc/passwd'' 0x210000 7 (Inl 20)]))"
    by (subst verifyDirectorySecure.simps) (simp add: eval_defs)
  have n1: "\<not> verifier_io_error ?E e" for e
    by (simp add: verifier_io_error_def)
  have n2: "verifier_io_error ?F e \<Longrightarrow> e = ENOTDIR" for e
    by (auto simp: verifier_io_error_def ENOTDIR_def)
  from C5_verifier_failures [where opts = ?o and K = fs_kernel and path = "''/home/u/notes''"
      and data = "[1, 2, 3]", unfolded d, OF y v1] n1
  have a: "secureAtomicWriteInternal fs_kernel ''/home/u/notes'' [1, 2, 3] ?o (fs0, []) =
      Some (Some ?E, w1)"
    by blast
  from C5_verifier_failures [where opts = ?o and K = fs_kernel and path = "''/etc/passwd/x''"
      and data = "[1, 2, 3]", unfolded d, OF y v2]
  have b: "secureAtomicWriteInternal fs_kernel ''/etc/passwd/x'' [1, 2, 3] ?o (fs_file, []) =
      paranoidAtomicWrite fs_kernel ''/etc/passwd/x'' [1, 2, 3] ?o
        (fs_file, [SysOpenat2 ''/etc/passwd'' 0x210000 7 (Inl 20)])"
    using n2 by (auto simp: verifier_rejection_def)
  from a b r v1 show ?thesis by simp
qed

section \<open>Short writes\<close>

text \<open>
  On every kernel, an \<open>os.File.Write\<close> that returns \<open>nil\<close> has made \<open>write(2)\<close> calls
  whose counts add up to the length of the buffer.
\<close>

lemma bytes_taken_append: "bytes_taken (xs @ ys) = bytes_taken xs + bytes_taken ys"
  by (induction xs rule: bytes_taken.induct) auto

lemma unix_Write_count:
  "unix_Write K fd b w = (Inr m, w1) \<Longrightarrow>
   snd w1 = snd w @ [SysWrite fd b (Inr m)] \<and> m \<le> length b"
  by (auto simp: unix_Write_def split: prod.splits sum.splits)

lemma poll_FD_Write_all:
  "poll_FD_Write K fd p nn w = ((n, None), w') \<Longrightarrow> nn \<le> length p \<Longrightarrow>
   n = length p \<and> (\<exists>evs. snd w' = snd w @ evs \<and> nn + bytes_taken evs = length p)"
proof (induction K fd p nn w rule: poll_FD_Write.induct)
  case (1 K fd p nn w)
  obtain a w1 where uw: "unix_Write K fd (drop nn p) w = (a, w1)"
    by (metis surj_pair)
  note unf = 1(2) [unfolded poll_FD_Write.simps [of K fd p nn w]]
  show ?case
  proof (cases a)
    case (Inl err)
    with uw unf show ?thesis by simp
  next
    case (Inr m)
    from unix_Write_count [OF uw [unfolded Inr]] 1(3)
    have t: "snd w1 = snd w @ [SysWrite fd (drop nn p) (Inr m)]" and m: "nn + m \<le> length p"
      by auto
    show ?thesis
    proof (cases "(if m > 0 then nn + m else nn) = length p \<or> m = 0")
      case True
      with uw Inr unf t show ?thesis
        by (auto simp: Let_def split: if_splits)
    next
      case False
      with uw Inr unf have
        r: "poll_FD_Write K fd p (nn + m) w1 = ((n, None), w')"
        by (auto simp: Let_def split: if_splits)
      from False have nn': "(if m > 0 then nn + m else nn) = nn + m"
        by simp
      from 1(1) [OF uw [symmetric] Inr refl, unfolded nn'] False r m
      obtain evs where "n = length p" "snd w' = snd w1 @ evs"
        "nn + m + bytes_taken evs = length p"
        by auto
      with t show ?thesis
        by (auto simp: bytes_taken_append)
    qed
  qed
qed

lemma File_Write_writes_all:
  assumes "File_Write K fd name b w = (None, w')"
  shows "\<exists>evs. snd w' = snd w @ evs \<and> bytes_taken evs = length b"
proof -
  obtain n e w1 where pw: "poll_FD_Write K fd b 0 w = ((n, e), w1)"
    by (metis surj_pair)
  with assms have "e = None" "w' = w1"
    by (auto simp: File_Write_def Let_def split: option.splits if_splits)
  with poll_FD_Write_all [of K fd b 0 w n w'] pw show ?thesis
    by auto
qed

text \<open>
  C4, on a kernel whose \<open>write(2)\<close> takes two bytes at a time. The anonymous-temp
  strategy calls \<open>unix.Write\<close> once and drops the count: the call returns \<open>nil\<close>
  and the published file holds two of the three bytes. The named-temp strategy writes
  through \<open>os.File.Write\<close>, which goes on until the buffer is written: on the same
  kernel without anonymous temporary files the published file holds the three bytes.
\<close>

theorem C4_short_write_publishes_prefix:
  "result_of (SecureAtomicWrite fs_kernel ''/etc/app.conf'' [1, 2, 3] 0x180 (fs_short, [])) =
     Some None \<and>
   file_after (SecureAtomicWrite fs_kernel ''/etc/app.conf'' [1, 2, 3] 0x180 (fs_short, []))
     ''/etc'' ''app.conf'' = Some [1, 2] \<and>
   result_of (SecureAtomicWrite fs_kernel ''/etc/app.conf'' [1, 2, 3] 0x180
                (fs_short_no_tmpfile, [])) = Some None \<and>
   file_after (SecureAtomicWrite fs_kernel ''/etc/app.conf'' [1, 2, 3] 0x180
                (fs_short_no_tmpfile, [])) ''/etc'' ''app.conf'' = Some [1, 2, 3]"
  by (simp add: eval_defs poll_FD_Write.simps)

section \<open>Closing the descriptors\<close>

text \<open>
  C10, on the machine \<open>fs0\<close>. On the success path with \<open>Sync\<close> on, the wrapper
  \<open>dirFile.Close()\<close> closes the directory descriptor and the deferred
  \<open>unix.Close(dirFd)\<close> closes the same number again: the kernel answers EBADF. In the
  named-temp strategy the same happens to the temporary file's descriptor
  (\<open>tmpFile.Close()\<close>, then the deferred \<open>unix.Close(tmpFd)\<close>), and the deferred
  \<open>Unlinkat\<close> runs on a directory descriptor that is already closed.
\<close>

theorem C10_descriptor_closed_twice:
  "trace_of (SecureAtomicWrite fs_kernel ''/etc/app.conf'' [1, 2, 3] 0x180 (fs0, [])) =
     [SysOpenat2 ''/etc'' 0x210000 7 (Inr 3),
      SysOpenat 3 [] 0x410002 0x180 (Inr 4),
      SysWrite 4 [1, 2, 3] (Inr 3),
      SysFsync 4 None,
      SysUnlinkat 3 ''app.conf'' (Some ENOENT),
      SysLinkat 4 [] 3 ''app.conf'' 0x1000 None,
      SysFsync 3 None,
      SysClose 3 None,
      SysClose 4 None,
      SysClose 3 (Some EBADF)] \<and>
   trace_of (SecureAtomicWrite fs_kernel ''/etc/app.conf'' [1, 2, 3] 0x180 (fs_no_tmpfile, [])) =
     [SysOpenat2 ''/etc'' 0x210000 7 (Inr 3),
      SysOpenat 3 [] 0x410002 0x180 (Inl EOPNOTSUPP),
      SysClose 3 None,
      SysOpenat2 ''/etc'' 0x210000 7 (Inr 4),
      SysOpenat 4 ''.app.conf.tmp'' 0x200C1 0x180 (Inr 5),
      SysWrite 5 [1, 2, 3] (Inr 3),
      SysFsync 5 None,
      SysClose 5 None,
      SysUnlinkat 4 ''app.conf'' (Some ENOENT),
      SysRenameat 4 ''.app.conf.tmp'' 4 ''app.conf'' None,
      SysFsync 4 None,
      SysClose 4 None,
      SysClose 5 (Some EBADF),
      SysUnlinkat 4 ''.app.conf.tmp'' (Some EBADF),
      SysClose 4 (Some EBADF)]"
  by (simp add: eval_defs poll_FD_Write.simps)

text \<open>
  On every kernel, a run of the anonymous-temp strategy that succeeds with \<open>Sync\<close> on
  ends with a close of the directory descriptor, a close of the temporary file's and a
  second close of the directory descriptor.
\<close>

lemma ultra_sync_closes_directory_twice:
  assumes "Sync opts" and "ultra_after_verify K d b data opts w = (None, w')"
  shows "\<exists>tr dirFd tmpFd c1 c2 c3.
           snd w' = tr @ [SysClose dirFd c1, SysClose tmpFd c2, SysClose dirFd c3]"
  using assms
  unfolding ultra_after_verify_def ultra_after_dir_def ultra_after_tmp_def
  by (auto split: prod.splits sum.splits option.splits if_splits dest!: sys_tr)

section \<open>The walk to the root\<close>

text \<open>
  The model of \<open>Clean\<close>, \<open>Dir\<close> and \<open>Base\<close> on the cases of Go's own tests
  (\<open>path/filepath/path_test.go\<close>).
\<close>

lemma filepath_Clean_examples:
  "filepath_Clean '''' = ''.''"
  "filepath_Clean ''abc'' = ''abc''"
  "filepath_Clean ''abc/def'' = ''abc/def''"
  "filepath_Clean ''.'' = ''.''"
  "filepath_Clean ''..'' = ''..''"
  "filepath_Clean ''../../abc'' = ''../../abc''"
  "filepath_Clean ''/abc'' = ''/abc''"
  "filepath_Clean ''/'' = ''/''"
  "filepath_Clean ''abc/'' = ''abc''"
  "filepath_Clean ''../../'' = ''../..''"
  "filepath_Clean ''abc//def//ghi'' = ''abc/def/ghi''"
  "filepath_Clean ''///abc'' = ''/abc''"
  "filepath_Clean ''//abc//'' = ''/abc''"
  "filepath_Clean ''abc/./def'' = ''abc/def''"
  "filepath_Clean ''/./abc/def'' = ''/abc/def''"
  "filepath_Clean ''abc/.'' = ''abc''"
  "filepath_Clean ''abc/def/ghi/../jkl'' = ''abc/def/jkl''"
  "filepath_Clean ''abc/def/../ghi/../jkl'' = ''abc/jkl''"
  "filepath_Clean ''abc/def/../..'' = ''.''"
  "filepath_Clean ''/abc/def/../..'' = ''/''"
  "filepath_Clean ''abc/def/../../..'' = ''..''"
  "filepath_Clean ''/abc/def/../../..'' = ''/''"
  "filepath_Clean ''abc/def/../../../ghi/jkl/../../../mno'' = ''../../mno''"
  "filepath_Clean ''/../abc'' = ''/abc''"
  "filepath_Clean ''abc/./../def'' = ''def''"
  "filepath_Clean ''abc/../../././../def'' = ''../../def''"
  by (simp_all add: path_defs)

lemma filepath_Dir_examples:
  "filepath_Dir '''' = ''.''"
  "filepath_Dir ''.'' = ''.''"
  "filepath_Dir ''/.'' = ''/''"
  "filepath_Dir ''/'' = ''/''"
  "filepath_Dir ''////'' = ''/''"
  "filepath_Dir ''/foo'' = ''/''"
  "filepath_Dir ''x/'' = ''x''"
  "filepath_Dir ''abc'' = ''.''"
  "filepath_Dir ''abc/def'' = ''abc''"
  "filepath_Dir ''a/b/.x'' = ''a/b''"
  "filepath_Dir ''a/b/c.'' = ''a/b''"
  by (simp_all add: path_defs)

lemma filepath_Base_examples:
  "filepath_Base '''' = ''.''"
  "filepath_Base ''.'' = ''.''"
  "filepath_Base ''/.'' = ''.''"
  "filepath_Base ''/'' = ''/''"
  "filepath_Base ''////'' = ''/''"
  "filepath_Base ''x/'' = ''x''"
  "filepath_Base ''abc'' = ''abc''"
  "filepath_Base ''abc/def'' = ''def''"
  "filepath_Base ''a/b/.x'' = ''.x''"
  "filepath_Base ''a/b/c.x'' = ''c.x''"
  by (simp_all add: path_defs)

text \<open>
  \<open>Dir\<close> keeps a path rooted or not rooted. The walk from a path that is not rooted
  never meets \<open>/\<close>; from a rooted path, \<open>Dir\<close> gives a clean rooted path, each
  further step drops its last element, and the walk meets \<open>/\<close>.
\<close>

lemma split_slash_nonempty: "split_slash p \<noteq> []"
  by (induction p) (auto split: list.splits)

lemma split_slash_no_slash: "x \<in> set (split_slash p) \<Longrightarrow> CHR ''/'' \<notin> set x"
proof (induction p arbitrary: x)
  case Nil
  then show ?case by simp
next
  case (Cons c cs)
  show ?case
  proof (cases "c = CHR ''/''")
    case True
    with Cons show ?thesis by auto
  next
    case False
    obtain y ys where s: "split_slash cs = y # ys"
      using split_slash_nonempty [of cs] by (cases "split_slash cs") auto
    with Cons False show ?thesis by auto
  qed
qed

lemma clean_elems_members:
  "x \<in> set (clean_elems r out cs) \<Longrightarrow>
   x \<in> set out \<or> (x \<in> set cs \<and> x \<noteq> []) \<or> x = ''..''"
  by (induction r out cs rule: clean_elems.induct)
     (auto split: if_splits list.splits)

lemma join_slash_hd: "cs \<noteq> [] \<Longrightarrow> hd cs \<noteq> [] \<Longrightarrow> hd (join_slash cs) = hd (hd cs)"
  by (induction cs rule: join_slash.induct) auto

lemma join_slash_empty: "join_slash cs = [] \<Longrightarrow> cs = [] \<or> cs = [[]]"
  by (induction cs rule: join_slash.induct) auto

lemma Clean_nonempty: "filepath_Clean p \<noteq> []"
  by (auto simp: filepath_Clean_def Let_def)

lemma Clean_rooted: "rooted (filepath_Clean p) \<longleftrightarrow> rooted p"
proof (cases "rooted p")
  case True
  then show ?thesis by (auto simp: filepath_Clean_def Let_def rooted_def)
next
  case False
  show ?thesis
  proof (cases "p = []")
    case True
    then show ?thesis by (simp add: filepath_Clean_def rooted_def)
  next
    case ne: False
    let ?L = "clean_elems False [] (split_slash p)"
    have "\<not> rooted (join_slash ?L)" if "join_slash ?L \<noteq> []"
    proof -
      from that have l: "?L \<noteq> []" by auto
      then have "hd ?L \<in> set ?L" by simp
      from clean_elems_members [OF this]
      have h: "hd ?L \<noteq> [] \<and> CHR ''/'' \<notin> set (hd ?L)"
        using split_slash_no_slash by auto
      with l have "hd (join_slash ?L) = hd (hd ?L)"
        by (simp add: join_slash_hd)
      with h show ?thesis
        by (cases "hd ?L") (auto simp: rooted_def)
    qed
    with False ne show ?thesis
      by (auto simp: filepath_Clean_def Let_def rooted_def)
  qed
qed

lemma prefix_rooted:
  "rooted (rev (dropWhile (\<lambda>c. c \<noteq> CHR ''/'') (rev p))) \<longleftrightarrow> rooted p"
proof (cases p)
  case Nil
  then show ?thesis by (simp add: rooted_def)
next
  case (Cons a as)
  show ?thesis
  proof (cases "a = CHR ''/''")
    case True
    have "rev (dropWhile (\<lambda>c. c \<noteq> CHR ''/'') (rev as @ [a])) =
        a # rev (dropWhile (\<lambda>c. c \<noteq> CHR ''/'') (rev as))"
      using True by (simp add: dropWhile_append)
    with Cons True show ?thesis by (simp add: rooted_def)
  next
    case False
    have "rev (dropWhile (\<lambda>c. c \<noteq> CHR ''/'') (rev as @ [a])) = [] \<or>
        hd (rev (dropWhile (\<lambda>c. c \<noteq> CHR ''/'') (rev as @ [a]))) = a"
      using False by (auto simp: dropWhile_append hd_append)
    with Cons False show ?thesis by (auto simp: rooted_def)
  qed
qed

lemma Dir_rooted: "rooted (filepath_Dir p) \<longleftrightarrow> rooted p"
  by (simp add: filepath_Dir_def Clean_rooted prefix_rooted)

lemma relative_never_root: "\<not> rooted p \<Longrightarrow> (filepath_Dir ^^ n) p \<noteq> ''/''"
proof -
  assume "\<not> rooted p"
  then have "\<not> rooted ((filepath_Dir ^^ n) p)"
    by (induction n) (simp_all add: Dir_rooted)
  then show ?thesis by (auto simp: rooted_def)
qed


lemma clean_elems_real:
  "list_all real_elem out \<Longrightarrow> (\<forall>c\<in>set cs. CHR ''/'' \<notin> set c) \<Longrightarrow>
   list_all real_elem (clean_elems True out cs)"
  by (induction "True" out cs rule: clean_elems.induct)
     (auto simp: real_elem_def split: list.splits)

lemma Clean_canon:
  assumes "rooted p"
  shows "\<exists>L. list_all real_elem L \<and> filepath_Clean p = canon L"
proof -
  have "list_all real_elem (clean_elems True [] (split_slash p))"
    by (rule clean_elems_real) (auto dest: split_slash_no_slash)
  with assms show ?thesis
    by (auto simp: filepath_Clean_def Let_def rooted_def canon_def)
qed

lemma Dir_canon_ex:
  assumes "rooted p"
  shows "\<exists>L. list_all real_elem L \<and> filepath_Dir p = canon L"
  unfolding filepath_Dir_def
  by (rule Clean_canon) (simp add: prefix_rooted assms)

lemma clean_elems_filter:
  "\<forall>c\<in>set cs. c = [] \<or> real_elem c \<Longrightarrow>
   clean_elems r out cs = rev out @ filter (\<lambda>c. c \<noteq> []) cs"
  by (induction cs arbitrary: out) (auto simp: real_elem_def)

lemma split_slash_plain: "CHR ''/'' \<notin> set x \<Longrightarrow> split_slash x = [x]"
  by (induction x) auto

lemma split_slash_append:
  "CHR ''/'' \<notin> set x \<Longrightarrow> split_slash (x @ CHR ''/'' # rest) = x # split_slash rest"
  by (induction x) auto

lemma split_join:
  "list_all real_elem L \<Longrightarrow> L \<noteq> [] \<Longrightarrow>
   split_slash (join_slash L @ CHR ''/'' # rest) = L @ split_slash rest"
  by (induction L rule: join_slash.induct)
     (auto simp: real_elem_def split_slash_append)

lemma join_slash_snoc:
  "L \<noteq> [] \<Longrightarrow> join_slash (L @ [x]) = join_slash L @ CHR ''/'' # x"
  by (induction L rule: join_slash.induct) auto

lemma prefix_last_slash:
  "CHR ''/'' \<notin> set x \<Longrightarrow>
   rev (dropWhile (\<lambda>c. c \<noteq> CHR ''/'') (rev (a @ CHR ''/'' # x))) = a @ ''/''"
  by (auto simp: dropWhile_append3 dropWhile_append1 dropWhile_append2)

lemma Dir_canon:
  assumes "list_all real_elem L"
  shows "filepath_Dir (canon L) = canon (butlast L)"
proof (cases L rule: rev_cases)
  case Nil
  then show ?thesis
    by (simp add: canon_def filepath_Dir_def filepath_Clean_def)
next
  case (snoc L' x)
  with assms have x: "CHR ''/'' \<notin> set x" and r: "list_all real_elem L'"
    by (auto simp: real_elem_def)
  show ?thesis
  proof (cases "L' = []")
    case True
    have "rev (dropWhile (\<lambda>c. c \<noteq> CHR ''/'') (rev ([] @ CHR ''/'' # x))) = [] @ ''/''"
      using x by (rule prefix_last_slash)
    with True snoc show ?thesis
      by (simp add: canon_def filepath_Dir_def filepath_Clean_def)
  next
    case False
    have c: "canon L = (CHR ''/'' # join_slash L') @ CHR ''/'' # x"
      using snoc False by (simp add: canon_def join_slash_snoc)
    have p: "rev (dropWhile (\<lambda>c. c \<noteq> CHR ''/'') (rev (canon L))) =
        (CHR ''/'' # join_slash L') @ ''/''"
      unfolding c using x by (rule prefix_last_slash)
    have s: "split_slash ((CHR ''/'' # join_slash L') @ ''/'') = [] # L' @ [[]]"
      using split_join [OF r False, of "[]"] by simp
    have e: "clean_elems True [] ([] # L' @ [[]]) = L'"
    proof -
      have "\<forall>c\<in>set ([] # L' @ [[]]). c = [] \<or> real_elem c"
        using r by (auto simp: list_all_iff)
      from clean_elems_filter [OF this, of True "[]"] r show ?thesis
        by (auto simp: list_all_iff real_elem_def filter_id_conv)
    qed
    show ?thesis
      unfolding filepath_Dir_def p
      using s e snoc by (simp add: filepath_Clean_def canon_def)
  qed
qed


text \<open>
  From a rooted path the verifier returns on every kernel, whatever the kernel answers:
  for these paths the walk ends.
\<close>

lemma verify_canon_returns:
  "list_all real_elem L \<Longrightarrow> verifyDirectorySecure K (canon L) va w \<noteq> None"
proof (induction "length L" arbitrary: L w rule: less_induct)
  case less
  have ih: "verifyDirectorySecure K (filepath_Dir (canon L)) va w' \<noteq> None"
    if "canon L \<noteq> ''/''" for w'
  proof -
    from that have "L \<noteq> []"
      by (auto simp: canon_def)
    then have "length (butlast L) < length L"
      by simp
    moreover have "list_all real_elem (butlast L)"
      using less.prems by (auto simp: list_all_iff dest: in_set_butlastD)
    ultimately show ?thesis
      using less.hyps [of "butlast L" w'] Dir_canon [OF less.prems] by simp
  qed
  show ?case
    using ih
    apply (subst verifyDirectorySecure.simps)
    apply (auto split: prod.splits sum.splits)
    done
qed


lemma verify_rooted_returns:
  assumes "rooted p"
  shows "verifyDirectorySecure K p va w \<noteq> None"
proof -
  obtain L where "list_all real_elem L" "filepath_Dir p = canon L"
    using Dir_canon_ex [OF assms] by blast
  then have "verifyDirectorySecure K (filepath_Dir p) va w' \<noteq> None" for w'
    using verify_canon_returns by simp
  then show ?thesis
    apply (subst verifyDirectorySecure.simps)
    apply (auto split: prod.splits sum.splits)
    done
qed

lemma canon_reaches_root:
  "list_all real_elem L \<Longrightarrow> (filepath_Dir ^^ length L) (canon L) = ''/''"
proof (induction "length L" arbitrary: L)
  case 0
  then show ?case by (simp add: canon_def)
next
  case (Suc n)
  then have b: "length (butlast L) = n" "list_all real_elem (butlast L)"
    by (auto simp: list_all_iff dest: in_set_butlastD)
  have "(filepath_Dir ^^ Suc n) (canon L) = (filepath_Dir ^^ n) (filepath_Dir (canon L))"
    by (simp only: funpow_Suc_right o_apply)
  also have "\<dots> = (filepath_Dir ^^ n) (canon (butlast L))"
    using Suc.prems by (simp add: Dir_canon)
  also have "\<dots> = ''/''"
    using Suc.hyps(1) [of "butlast L"] b by simp
  finally show ?case
    using Suc.hyps(2) by simp
qed

lemma absolute_reaches_root:
  assumes "rooted p"
  shows "\<exists>n. (filepath_Dir ^^ n) p = ''/''"
proof -
  obtain L where l: "list_all real_elem L" "filepath_Dir p = canon L"
    using Dir_canon_ex [OF assms] by blast
  have "(filepath_Dir ^^ Suc (length L)) p = (filepath_Dir ^^ length L) (filepath_Dir p)"
    by (simp only: funpow_Suc_right o_apply)
  with l canon_reaches_root [of L] have "(filepath_Dir ^^ Suc (length L)) p = ''/''"
    by simp
  then show ?thesis ..
qed

text \<open>
  On a kernel with \<open>openat2\<close> whose working directory is owned by root and not
  world-writable, the verify-all walk from \<open>.\<close> never returns.
\<close>

lemma verify_dot_never_returns:
  assumes "verifyDirectorySecure K c va w = Some y"
  shows "\<not> (K = fs_kernel \<and> c = ''.'' \<and> va \<and> root_cwd (fst w))"
proof (rule verifyDirectorySecure.raw_induct
    [where P = "\<lambda>K c va w y. \<not> (K = fs_kernel \<and> c = ''.'' \<and> va \<and> root_cwd (fst w))",
      OF _ assms], goal_cases)
  case (1 vds K c va w y)
  show ?case
  proof
    assume a: "K = fs_kernel \<and> c = ''.'' \<and> va \<and> root_cwd (fst w)"
    obtain s tr where w: "w = (s, tr)"
      by (cases w)
    let ?s3 = "s\<lparr>next_fd := Suc (next_fd s), fdtab := (fdtab s)(next_fd s := None)\<rparr>"
    let ?tr3 = "tr @ [SysOpenat2 ''.'' 0x210000 7 (Inr (next_fd s)),
                      SysFstat (next_fd s) (Inr \<lparr>Uid = 0, Mode = 0x41ED\<rparr>),
                      SysClose (next_fd s) None]"
    from a w have "vds fs_kernel ''.'' True (?s3, ?tr3) = Some y"
      using 1(2)
      by (simp add: root_cwd_def root_dir_def openDirSecure_def resolveFlags_def unix_defs
          fs_defs const_defs path_defs)
    moreover from a w have "root_cwd ?s3"
      by (simp add: root_cwd_def)
    ultimately show False
      using 1(1) [of fs_kernel "''.''" True "(?s3, ?tr3)" y] by simp
  qed
qed

text \<open>
  C6, for the relative target \<open>app.conf\<close>. Its directory is \<open>.\<close>, the textual parent
  of \<open>.\<close> is \<open>.\<close> again, the walk never meets \<open>/\<close>, and with a root-owned working
  directory every check passes: the verifier and the strict entry point never return.
\<close>

theorem C6_relative_walk_never_returns:
  "filepath_Dir ''app.conf'' = ''.'' \<and> filepath_Dir ''.'' = ''.'' \<and>
   verifyDirectorySecure fs_kernel ''.'' True (fs0, []) = None \<and>
   SecureAtomicWriteRootStrict fs_kernel ''app.conf'' [1, 2, 3] 0x180 (fs0, []) = None"
proof -
  have d: "filepath_Dir ''app.conf'' = ''.''" "filepath_Dir ''.'' = ''.''"
    by (simp_all add: path_defs)
  have r: "root_cwd fs0"
    by (simp add: root_cwd_def fs0_def)
  have v: "verifyDirectorySecure fs_kernel ''.'' True (fs0, []) = None"
  proof (cases "verifyDirectorySecure fs_kernel ''.'' True (fs0, [])")
    case (Some y)
    from verify_dot_never_returns [OF Some] r show ?thesis by simp
  qed simp
  from d v show ?thesis
    by (simp add: SecureAtomicWriteRootStrict_def secureAtomicWriteInternal_def
        ultraParanoidWrite_def Let_def)
qed

end
